theory Spec2Isabelle
  imports Main "HOL-Library.Multiset"
begin

section \<open>Data model of the selection-list prompter (pickerPrompter.ts)\<close>

text \<open>
  Values carried by an item's \<open>data\<close> property. JavaScript distinguishes primitives,
  compared by \<open>===\<close> on their value, from objects and functions, compared by reference:
  an object carries the identity of its allocation next to its own enumerable fields,
  which are what \<open>JSON.stringify\<close> prints. A function used as \<open>data\<close> takes no argument
  and returns a promise: \<open>Some v\<close> is a promise that resolves to \<open>v\<close>, \<open>None\<close> one that
  rejects.
\<close>

datatype jsval =
    JUndefined
  | JNull
  | JBool bool
  | JNum int
  | JStr string
  | JSymbol string
  | JObject nat "(string \<times> jsval) list"
  | JFunction nat "jsval option"

text \<open>
  Modelled from the spec: the control signals of wizard.ts, which is not among the
  sources. They are sentinel values distinguished from any legitimate answer.
\<close>

definition WIZARD_BACK :: jsval where
  "WIZARD_BACK = JSymbol ''WIZARD_BACK''"

definition WIZARD_EXIT :: jsval where
  "WIZARD_EXIT = JSymbol ''WIZARD_EXIT''"

definition WIZARD_RETRY :: jsval where
  "WIZARD_RETRY = JSymbol ''WIZARD_RETRY''"

text \<open>The symbol that marks the item made from the text of the filter box.\<close>

definition CUSTOM_USER_INPUT :: jsval where
  "CUSTOM_USER_INPUT = JSymbol ''CUSTOM_USER_INPUT''"

text \<open>
  A \<open>DataQuickPickItem\<close>. Optional strings are \<open>None\<close> when the property is absent.
  \<open>invalidSelection\<close> and \<open>skipEstimate\<close> are only ever tested for truthiness, so an
  absent flag is \<open>False\<close>. An \<open>onClick\<close> callback is known by a number; calling it is
  recorded in a log, which is all the prompter can observe of it.
\<close>

record DataQuickPickItem =
  label :: string
  description :: "string option"
  detail :: "string option"
  alwaysShow :: bool
  data :: jsval
  invalidSelection :: bool
  onClick :: "nat option"
  skipEstimate :: bool

text \<open>
  JavaScript numbers as far as the step counters need them: a counter that was never
  set is \<open>undefined\<close>, and adding \<open>undefined\<close> to a number gives \<open>NaN\<close>.
\<close>

datatype jsnumber = Num int | NaN | NumUndefined

fun js_add :: "jsnumber \<Rightarrow> jsnumber \<Rightarrow> jsnumber" where
  "js_add (Num a) (Num b) = Num (a + b)"
| "js_add _ _ = NaN"

text \<open>
  The \<open>QuickPick\<close> the prompter drives, as the properties the code reads and writes:
  a property holds what was last assigned to it. An array of items that the code builds
  with \<open>items[0]\<close> can hold \<open>undefined\<close>, so the entries of \<open>activeItems\<close> are optional.
\<close>

record DataQuickPick =
  items :: "DataQuickPickItem list"
  activeItems :: "DataQuickPickItem option list"
  selectedItems :: "DataQuickPickItem list"
  busy :: bool
  enabled :: bool
  filterValue :: string
  step :: jsnumber
  totalSteps :: jsnumber

text \<open>The part of \<open>ExtendedQuickPickOptions\<close> that the prompter's methods consult.\<close>

record ExtendedQuickPickOptions =
  compare :: "(DataQuickPickItem \<Rightarrow> DataQuickPickItem \<Rightarrow> int) option"
  placeholderItem :: "DataQuickPickItem option"
  errorItem :: "DataQuickPickItem option"
  showSelectedPreviously :: bool

record QuickPickPrompter =
  quickPick :: DataQuickPick
  options :: ExtendedQuickPickOptions
  isShowingPlaceholder :: bool

datatype error = TypeError | LoadError string | DataRejected

text \<open>\<open>xs[i]\<close> in JavaScript: \<open>undefined\<close> out of range.\<close>

fun js_index :: "'a list \<Rightarrow> nat \<Rightarrow> 'a option" where
  "js_index [] _ = None"
| "js_index (x # xs) 0 = Some x"
| "js_index (x # xs) (Suc n) = js_index xs n"

section \<open>Selecting items\<close>

text \<open>
  \<open>items.map(item => item.label)\<close>: reading \<open>label\<close> of an \<open>undefined\<close> entry throws a
  TypeError.
\<close>

fun labels_of :: "DataQuickPickItem option list \<Rightarrow> error + string list" where
  "labels_of [] = Inr []"
| "labels_of (None # _) = Inl TypeError"
| "labels_of (Some i # rest) =
     (case labels_of rest of Inl e \<Rightarrow> Inl e | Inr ls \<Rightarrow> Inr (label i # ls))"

text \<open>
  \<open>selectItems\<close>. A method that throws leaves the mutations it made before, so every
  method returns the error, if any, together with the prompter.
\<close>

definition selectItems ::
  "DataQuickPickItem option list \<Rightarrow> QuickPickPrompter \<Rightarrow> error option \<times> QuickPickPrompter" where
  "selectItems its p =
     (case labels_of its of
        Inl e \<Rightarrow> (Some e, p)
      | Inr selected \<Rightarrow>
          (let q = quickPick p;
               act = map Some (filter (\<lambda>item. label item \<in> set selected) (items q));
               act' = (if length act = 0 then [js_index (items q) 0] else act)
           in (None, p\<lparr>quickPick := q\<lparr>activeItems := act'\<rparr>\<rparr>)))"

section \<open>Buttons (buttons.ts)\<close>

datatype ButtonState = StateOn | StateOff

text \<open>
  \<open>QuickInputToggleButton\<close>: its state and the two optional callbacks, known by a
  number as the \<open>onClick\<close> of an item is.
\<close>

record QuickInputToggleButton =
  tstate :: ButtonState
  onCallback :: "nat option"
  offCallBack :: "nat option"

text \<open>
  The buttons a prompt can carry: the static Back button of the editor, a toggle
  button, a button whose \<open>onClick\<close> returns a value (the exit button returns
  \<open>WIZARD_EXIT\<close>; the link button returns \<open>undefined\<close>), and a button with no \<open>onClick\<close>
  (the refresh and plus buttons).
\<close>

datatype QuickInputButton =
    QuickInputButtons_Back
  | ToggleButton QuickInputToggleButton
  | ValueButton nat jsval
  | PlainButton

text \<open>\<open>QuickInputToggleButton.onClick\<close>: the result, the button and the callback log.\<close>

definition toggle_onClick ::
  "QuickInputToggleButton \<Rightarrow> nat list \<Rightarrow> jsval \<times> QuickInputToggleButton \<times> nat list" where
  "toggle_onClick b log =
     (let st = (if tstate b = StateOn then StateOff else StateOn);
          log1 = (if st = StateOn \<and> onCallback b \<noteq> None then log @ [the (onCallback b)] else log);
          log2 = (if st = StateOff \<and> offCallBack b \<noteq> None then log1 @ [the (offCallBack b)] else log1)
      in (WIZARD_RETRY, b\<lparr>tstate := st\<rparr>, log2))"

section \<open>The prompt: events and the promise\<close>

datatype 'a promise = Pending | Resolved 'a | Rejected error

text \<open>
  What \<open>promptUser\<close> sets up: the picker, the promise it returns, the log of the
  callbacks that were called, and whether the picker was shown and disposed.
\<close>

record PromptSession =
  picker :: DataQuickPick
  outcome :: "DataQuickPickItem list promise"
  clickLog :: "nat list"
  shown :: bool
  disposed :: bool

definition plainItem :: "string \<Rightarrow> jsval \<Rightarrow> DataQuickPickItem" where
  "plainItem l d = \<lparr>label = l, description = None, detail = None, alwaysShow = False,
     data = d, invalidSelection = False, onClick = None, skipEstimate = False\<rparr>"

definition castDatumToItems :: "jsval \<Rightarrow> DataQuickPickItem list" where
  "castDatumToItems datum = [plainItem [] datum]"

text \<open>Resolving a promise that is already settled does nothing.\<close>

definition resolve :: "DataQuickPickItem list \<Rightarrow> PromptSession \<Rightarrow> PromptSession" where
  "resolve v s = (case outcome s of Pending \<Rightarrow> s\<lparr>outcome := Resolved v\<rparr> | _ \<Rightarrow> s)"

text \<open>The \<open>forEach\<close> over the selected items that calls every \<open>onClick\<close> there is.\<close>

fun fireOnClicks :: "DataQuickPickItem list \<Rightarrow> nat list \<Rightarrow> nat list" where
  "fireOnClicks [] log = log"
| "fireOnClicks (item # rest) log =
     fireOnClicks rest (case onClick item of Some c \<Rightarrow> log @ [c] | None \<Rightarrow> log)"

definition acceptItems :: "PromptSession \<Rightarrow> PromptSession" where
  "acceptItems s =
     (if length (selectedItems (picker s)) = 0 then s
      else
        (let s1 = s\<lparr>clickLog := fireOnClicks (selectedItems (picker s)) (clickLog s)\<rparr>
         in if list_ex invalidSelection (selectedItems (picker s1)) then s1
            else resolve (selectedItems (picker s1)) s1))"

definition onDidHide :: "PromptSession \<Rightarrow> PromptSession" where
  "onDidHide s = resolve (castDatumToItems WIZARD_EXIT) s"

text \<open>
  The button handler; it returns the button too, since a toggle button changes state
  when clicked.
\<close>

fun onDidTriggerButton :: "QuickInputButton \<Rightarrow> PromptSession \<Rightarrow> QuickInputButton \<times> PromptSession" where
  "onDidTriggerButton QuickInputButtons_Back s = (QuickInputButtons_Back, resolve (castDatumToItems WIZARD_BACK) s)"
| "onDidTriggerButton (ToggleButton b) s =
     (case toggle_onClick b (clickLog s) of (response, b', log) \<Rightarrow>
        (ToggleButton b',
         if response \<noteq> JUndefined then resolve (castDatumToItems response) (s\<lparr>clickLog := log\<rparr>)
         else s\<lparr>clickLog := log\<rparr>))"
| "onDidTriggerButton (ValueButton c response) s =
     (ValueButton c response,
      if response \<noteq> JUndefined then resolve (castDatumToItems response) (s\<lparr>clickLog := clickLog s @ [c]\<rparr>)
      else s\<lparr>clickLog := clickLog s @ [c]\<rparr>)"
| "onDidTriggerButton PlainButton s = (PlainButton, s)"

text \<open>\<open>.finally(() => picker.dispose())\<close>: runs once the promise has settled.\<close>

definition finally_dispose :: "PromptSession \<Rightarrow> PromptSession" where
  "finally_dispose s = (case outcome s of Pending \<Rightarrow> s | _ \<Rightarrow> s\<lparr>disposed := True\<rparr>)"

text \<open>
  The events of the picker while it is shown. The user changes the selection before
  accepting it.
\<close>

datatype event =
    ChangeSelection "DataQuickPickItem list"
  | Accept
  | Hide
  | TriggerButton QuickInputButton

fun handle :: "event \<Rightarrow> PromptSession \<Rightarrow> PromptSession" where
  "handle (ChangeSelection sel) s = s\<lparr>picker := (picker s)\<lparr>selectedItems := sel\<rparr>\<rparr>"
| "handle Accept s = finally_dispose (acceptItems s)"
| "handle Hide s = finally_dispose (onDidHide s)"
| "handle (TriggerButton b) s = finally_dispose (snd (onDidTriggerButton b s))"

text \<open>\<open>promptUser\<close>: the handlers are registered, the picker is shown, nothing is settled.\<close>

definition promptUser :: "DataQuickPick \<Rightarrow> PromptSession" where
  "promptUser q = \<lparr>picker = q, outcome = Pending, clickLog = [], shown = True, disposed = False\<rparr>"






section \<open>Recovering the last response\<close>

datatype jstype = TUndefined | TObject | TBoolean | TNumber | TString | TSymbol | TFunction

fun typeof :: "jsval \<Rightarrow> jstype" where
  "typeof JUndefined = TUndefined"
| "typeof JNull = TObject"
| "typeof (JBool _) = TBoolean"
| "typeof (JNum _) = TNumber"
| "typeof (JStr _) = TString"
| "typeof (JSymbol _) = TSymbol"
| "typeof (JObject _ _) = TObject"
| "typeof (JFunction _ _) = TFunction"

text \<open>\<open>===\<close>: primitives by value, objects and functions by reference.\<close>

fun strict_eq :: "jsval \<Rightarrow> jsval \<Rightarrow> bool" where
  "strict_eq (JObject a _) (JObject b _) = (a = b)"
| "strict_eq (JFunction a _) (JFunction b _) = (a = b)"
| "strict_eq x y = (x = y)"

text \<open>
  \<open>JSON.stringify\<close>, which returns \<open>undefined\<close> (here \<open>None\<close>) for \<open>undefined\<close>, a symbol
  or a function and leaves out the fields of an object that hold one of these.
\<close>

fun digits :: "nat \<Rightarrow> string" where
  "digits n = (if n < 10 then [''0123456789'' ! n] else digits (n div 10) @ [''0123456789'' ! (n mod 10)])"

definition show_int :: "int \<Rightarrow> string" where
  "show_int i = (if i < 0 then CHR ''-'' # digits (nat (- i)) else digits (nat i))"

definition quote :: "string \<Rightarrow> string" where
  "quote str = [CHR 0x22] @ concat (map (\<lambda>c. if c = CHR 0x22 \<or> c = CHR 0x5C then [CHR 0x5C, c] else [c]) str) @ [CHR 0x22]"

fun join :: "string list \<Rightarrow> string" where
  "join [] = []"
| "join [x] = x"
| "join (x # y # rest) = x @ '','' @ join (y # rest)"

fun JSON_stringify :: "jsval \<Rightarrow> string option"
  and stringify_fields :: "(string \<times> jsval) list \<Rightarrow> string list" where
  "JSON_stringify JUndefined = None"
| "JSON_stringify JNull = Some ''null''"
| "JSON_stringify (JBool b) = Some (if b then ''true'' else ''false'')"
| "JSON_stringify (JNum i) = Some (show_int i)"
| "JSON_stringify (JStr str) = Some (quote str)"
| "JSON_stringify (JSymbol _) = None"
| "JSON_stringify (JObject _ flds) = Some (''{'' @ join (stringify_fields flds) @ ''}'')"
| "JSON_stringify (JFunction _ _) = None"
| "stringify_fields [] = []"
| "stringify_fields ((k, v) # rest) =
     (case JSON_stringify v of
        None \<Rightarrow> stringify_fields rest
      | Some txt \<Rightarrow> (quote k @ '':'' @ txt) # stringify_fields rest)"

text \<open>\<open>recoverItemFromData\<close>: the first item whose data answers to the response.\<close>

definition recoverItemFromData :: "jsval \<Rightarrow> DataQuickPickItem list \<Rightarrow> DataQuickPickItem option" where
  "recoverItemFromData d its =
     (let stringified = JSON_stringify d
      in find (\<lambda>item.
           if typeof (data item) = TObject then stringified = JSON_stringify (data item)
           else if typeof (data item) = TFunction then False
           else strict_eq d (data item)) its)"

text \<open>
  What \<open>setLastResponse\<close> is given: an item of the list, or a response of any type.
\<close>

datatype picked = PickedItem DataQuickPickItem | PickedValue jsval

text \<open>
  \<open>isDataQuickPickItem\<close>. Reading \<open>label\<close> of \<open>null\<close>, whose type is \<open>object\<close>, throws.
  An object that has a string \<open>label\<close> and a \<open>data\<close> property passes for an item; the
  result carries the label, the only property \<open>setLastResponse\<close> then reads.
\<close>

fun isDataQuickPickItem :: "picked \<Rightarrow> error + string option" where
  "isDataQuickPickItem (PickedItem item) = Inr (Some (label item))"
| "isDataQuickPickItem (PickedValue JNull) = Inl TypeError"
| "isDataQuickPickItem (PickedValue (JObject _ flds)) =
     (case map_of flds ''label'' of
        Some (JStr l) \<Rightarrow> (if ''data'' \<in> set (map fst flds) then Inr (Some l) else Inr None)
      | _ \<Rightarrow> Inr None)"
| "isDataQuickPickItem (PickedValue _) = Inr None"

text \<open>The detail of an item once it is marked as selected previously.\<close>

definition markSelected :: "string \<Rightarrow> DataQuickPickItem \<Rightarrow> DataQuickPickItem" where
  "markSelected selectedPreviously item =
     item\<lparr>detail := Some ((case detail item of None \<Rightarrow> [] | Some d \<Rightarrow> d) @ '' ('' @ selectedPreviously @ '')'')\<rparr>"

text \<open>
  \<open>setLastResponse\<close>. The localized text \<open>selectedPreviously\<close> is a parameter. The active
  items are the very objects of the item list, so marking them marks the list's items;
  the items of the list are taken to be distinct objects.
\<close>

definition setLastResponse ::
  "string \<Rightarrow> picked \<Rightarrow> QuickPickPrompter \<Rightarrow> error option \<times> QuickPickPrompter" where
  "setLastResponse selectedPreviously pk p =
     (if pk = PickedValue JUndefined then (None, p)
      else case isDataQuickPickItem pk of
        Inl e \<Rightarrow> (Some e, p)
      | Inr isItem \<Rightarrow>
          (let q = quickPick p;
               wanted = (case isItem of
                   None \<Rightarrow> (case pk of PickedValue v \<Rightarrow> map_option label (recoverItemFromData v (items q))
                                     | PickedItem item \<Rightarrow> Some (label item))
                 | Some l \<Rightarrow> Some l);
               is_active = (\<lambda>item. Some (label item) = wanted);
               its = (if showSelectedPreviously (options p)
                      then map (\<lambda>item. if is_active item then markSelected selectedPreviously item else item) (items q)
                      else items q);
               act = map Some (filter is_active its);
               act' = (if length act = 0 then [js_index its 0] else act)
           in (None, p\<lparr>quickPick := q\<lparr>items := its, activeItems := act'\<rparr>\<rparr>)))"

section \<open>Loading items\<close>

text \<open>
  \<open>Array.prototype.sort\<close> is stable. Without a comparator the elements are compared as
  strings, and every item prints as the same string, so the order stays as it is. With
  a comparator \<open>f\<close>, a later element \<open>x\<close> moves in front of an earlier element \<open>e\<close> only when
  \<open>f x e < 0\<close>: each element in turn is put in front of the first element it is less than.
  For a comparator that is consistent in the sense of ECMAScript this is the sorted,
  stable permutation, which every conforming sort returns; for any other comparator
  the standard leaves the order to the implementation.
\<close>

fun insert_by :: "('a \<Rightarrow> 'a \<Rightarrow> int) \<Rightarrow> 'a \<Rightarrow> 'a list \<Rightarrow> 'a list" where
  "insert_by f x [] = [x]"
| "insert_by f x (e # es) = (if f x e < 0 then x # e # es else e # insert_by f x es)"

definition js_sort :: "('a \<Rightarrow> 'a \<Rightarrow> int) option \<Rightarrow> 'a list \<Rightarrow> 'a list" where
  "js_sort cmp xs = (case cmp of None \<Rightarrow> xs | Some f \<Rightarrow> foldl (\<lambda>acc x. insert_by f x acc) [] xs)"

definition clearItems :: "QuickPickPrompter \<Rightarrow> QuickPickPrompter" where
  "clearItems p = p\<lparr>quickPick := (quickPick p)\<lparr>items := []\<rparr>, isShowingPlaceholder := False\<rparr>"

definition appendItems ::
  "DataQuickPickItem list \<Rightarrow> QuickPickPrompter \<Rightarrow> error option \<times> QuickPickPrompter" where
  "appendItems page p =
     (let q = quickPick p;
          previousSelected = activeItems q;
          merged = js_sort (compare (options p)) (items q @ page);
          p1 = (if length merged = 0 \<and> \<not> busy q
                then p\<lparr>quickPick := q\<lparr>items := (case placeholderItem (options p) of Some ph \<Rightarrow> [ph] | None \<Rightarrow> [])\<rparr>,
                       isShowingPlaceholder := True\<rparr>
                else p\<lparr>quickPick := q\<lparr>items := merged\<rparr>\<rparr>)
      in selectItems previousSelected p1)"

text \<open>
  One answer of an async iterator's \<open>next()\<close>: a value, which may be absent, with the
  \<open>done\<close> flag, or a rejection. An async iterable is the sequence of its answers.
\<close>

datatype IteratorResult = Next "DataQuickPickItem list option" bool | NextRejects error

datatype ItemLoadTypes =
    LoadArray "DataQuickPickItem list"
  | LoadPromise "error + DataQuickPickItem list"
  | LoadAsyncIterable "nat \<Rightarrow> IteratorResult"

text \<open>
  The \<open>while (true)\<close> loop over the pages. An iterable that never reports \<open>done\<close> keeps
  the loop running for ever: the result is then \<open>None\<close>.
\<close>

partial_function (option) loadPages ::
  "(nat \<Rightarrow> IteratorResult) \<Rightarrow> nat \<Rightarrow> QuickPickPrompter \<Rightarrow> (error option \<times> QuickPickPrompter) option" where
  "loadPages it n p =
     (case it n of
        NextRejects e \<Rightarrow> Some (Some e, p)
      | Next v d \<Rightarrow>
          (case (case v of None \<Rightarrow> (None, p) | Some page \<Rightarrow> appendItems page p) of
             (Some e, p') \<Rightarrow> Some (Some e, p')
           | (None, p') \<Rightarrow> if d then Some (None, p') else loadPages it (Suc n) p'))"

declare loadPages.simps [code]

text \<open>\<open>loadItems\<close>, in its three parts: before, while and after the items arrive.\<close>

definition loadItems_begin :: "bool option \<Rightarrow> QuickPickPrompter \<Rightarrow> QuickPickPrompter" where
  "loadItems_begin disableInput p =
     (let p0 = (if isShowingPlaceholder p then clearItems p else p)
      in p0\<lparr>quickPick := (quickPick p0)\<lparr>busy := True, enabled := (disableInput = Some True)\<rparr>\<rparr>)"

fun loadItems_body :: "ItemLoadTypes \<Rightarrow> QuickPickPrompter \<Rightarrow> (error option \<times> QuickPickPrompter) option" where
  "loadItems_body (LoadAsyncIterable it) p = loadPages it 0 p"
| "loadItems_body (LoadPromise (Inl e)) p = Some (Some e, p)"
| "loadItems_body (LoadPromise (Inr its)) p = Some (appendItems its p)"
| "loadItems_body (LoadArray its) p = Some (appendItems its p)"

definition loadItems_end :: "QuickPickPrompter \<Rightarrow> error option \<times> QuickPickPrompter" where
  "loadItems_end p = appendItems [] (p\<lparr>quickPick := (quickPick p)\<lparr>busy := False, enabled := True\<rparr>\<rparr>)"

definition loadItems ::
  "ItemLoadTypes \<Rightarrow> bool option \<Rightarrow> QuickPickPrompter \<Rightarrow> (error option \<times> QuickPickPrompter) option" where
  "loadItems ld disableInput p =
     (case loadItems_body ld (loadItems_begin disableInput p) of
        None \<Rightarrow> None
      | Some (Some e, p') \<Rightarrow> Some (Some e, p')
      | Some (None, p') \<Rightarrow> Some (loadItems_end p'))"

section \<open>Filter-box input\<close>

text \<open>
  \<open>FilterBoxInputSettings\<close>: the label of the item made from the user's input, the
  parser of the input, whose result may be \<open>undefined\<close> or a control signal, and the
  optional validator, which returns a message for an input it rejects.
\<close>

record FilterBoxInputSettings =
  fb_label :: string
  fb_transform :: "string \<Rightarrow> jsval"
  fb_validator :: "(string \<Rightarrow> string option) option"

definition validator :: "FilterBoxInputSettings \<Rightarrow> string \<Rightarrow> string option" where
  "validator settings input = (case fb_validator settings of None \<Rightarrow> None | Some f \<Rightarrow> f input)"

definition customUserInputItem :: "FilterBoxInputSettings \<Rightarrow> string \<Rightarrow> DataQuickPickItem" where
  "customUserInputItem settings v =
     \<lparr>label = fb_label settings, description = Some v, detail = validator settings v, alwaysShow = True,
      data = CUSTOM_USER_INPUT, invalidSelection = (validator settings v \<noteq> None), onClick = None,
      skipEstimate = False\<rparr>"

text \<open>
  \<open>update\<close>, the closure of \<open>addFilterBoxInput\<close> over the items it found in the picker.
\<close>

definition update :: "FilterBoxInputSettings \<Rightarrow> DataQuickPickItem list \<Rightarrow> string \<Rightarrow> DataQuickPick \<Rightarrow> DataQuickPick" where
  "update settings its v q =
     (if v \<noteq> [] then q\<lparr>items := customUserInputItem settings v # its\<rparr> else q\<lparr>items := its\<rparr>)"

text \<open>
  \<open>addFilterBoxInput\<close>: the items that \<open>update\<close> keeps, and the picker after the first
  \<open>update\<close>. \<open>onDidChangeValue\<close> is the event that calls \<open>update\<close> afterwards.
\<close>

definition addFilterBoxInput :: "FilterBoxInputSettings \<Rightarrow> DataQuickPick \<Rightarrow> DataQuickPickItem list \<times> DataQuickPick" where
  "addFilterBoxInput settings q =
     (let its = filter (\<lambda>item. \<not> strict_eq (data item) CUSTOM_USER_INPUT) (items q)
      in (its, update settings its (filterValue q) q))"

definition onDidChangeValue ::
  "FilterBoxInputSettings \<Rightarrow> DataQuickPickItem list \<Rightarrow> string \<Rightarrow> DataQuickPick \<Rightarrow> DataQuickPick" where
  "onDidChangeValue settings its v q = update settings its v (q\<lparr>filterValue := v\<rparr>)"

text \<open>
  The transform that the constructor of \<open>FilterBoxQuickPickPrompter\<close> registers;
  \<open>??\<close> falls back on \<open>undefined\<close> and on \<open>null\<close>.
\<close>

definition filterBoxTransform :: "FilterBoxInputSettings \<Rightarrow> DataQuickPick \<Rightarrow> jsval \<Rightarrow> jsval" where
  "filterBoxTransform settings q selection =
     (if strict_eq selection CUSTOM_USER_INPUT
      then (let r = fb_transform settings (filterValue q)
            in if r = JUndefined \<or> r = JNull then selection else r)
      else selection)"

section \<open>Step estimates\<close>

definition hashItem :: "DataQuickPickItem \<Rightarrow> string" where
  "hashItem item = label item @ '':'' @ (case description item of None \<Rightarrow> [] | Some d \<Rightarrow> d) @ '':'' @
     (case detail item of None \<Rightarrow> [] | Some d \<Rightarrow> d)"

text \<open>
  What \<open>setEstimate\<close> returns: nothing, or, for an item whose data is a function, the
  promise that will store the estimate once the data has arrived. The promise is known by
  its item. The step estimator and the prompter's own \<open>applyTransforms\<close>, which belongs to
  the base class, are parameters.
\<close>

datatype SetEstimateResult = NoPromise | EstimatePromise DataQuickPickItem

definition setEstimate ::
  "(jsval \<Rightarrow> int) \<Rightarrow> (jsval \<Rightarrow> jsval) \<Rightarrow> DataQuickPickItem \<Rightarrow> (string \<rightharpoonup> int) \<Rightarrow>
   SetEstimateResult \<times> (string \<rightharpoonup> int)" where
  "setEstimate estimator applyTransforms item est =
     (if skipEstimate item then (NoPromise, est)
      else case data item of
        JFunction _ _ \<Rightarrow> (EstimatePromise item, est)
      | d \<Rightarrow> (NoPromise, est(hashItem item \<mapsto> estimator (applyTransforms d))))"

text \<open>\<open>items.map(setEstimate)\<close>, from left to right.\<close>

fun setEstimates ::
  "(jsval \<Rightarrow> int) \<Rightarrow> (jsval \<Rightarrow> jsval) \<Rightarrow> DataQuickPickItem list \<Rightarrow> (string \<rightharpoonup> int) \<Rightarrow>
   SetEstimateResult list \<times> (string \<rightharpoonup> int)" where
  "setEstimates estimator applyTransforms [] est = ([], est)"
| "setEstimates estimator applyTransforms (item # rest) est =
     (case setEstimate estimator applyTransforms item est of (r, est1) \<Rightarrow>
        (case setEstimates estimator applyTransforms rest est1 of (rs, est2) \<Rightarrow> (r # rs, est2)))"

text \<open>The items whose promises \<open>setEstimate\<close> has started.\<close>

definition started :: "SetEstimateResult list \<Rightarrow> DataQuickPickItem list" where
  "started rs = concat (map (\<lambda>r. case r of EstimatePromise j \<Rightarrow> [j] | NoPromise \<Rightarrow> []) rs)"

text \<open>
  The data of an item arrives: if a promise was started for the item, it stores the
  estimate of what the data resolved to under the hash of the item. A promise whose data
  function rejects stores nothing.
\<close>

definition arrive ::
  "(jsval \<Rightarrow> int) \<Rightarrow> (jsval \<Rightarrow> jsval) \<Rightarrow> DataQuickPickItem list \<Rightarrow> (string \<rightharpoonup> int) \<Rightarrow> DataQuickPickItem \<Rightarrow>
   (string \<rightharpoonup> int)" where
  "arrive estimator applyTransforms st est item =
     (if item \<in> set st
      then (case data item of
              JFunction _ (Some v) \<Rightarrow> est(hashItem item \<mapsto> estimator (applyTransforms v))
            | _ \<Rightarrow> est)
      else est)"

text \<open>
  Awaiting the first of the results of \<open>setEstimate\<close>. The code waits for that promise
  only, but while it waits the data of any started promise may arrive: \<open>arrivals\<close> lists,
  in order, the items whose data arrives before the code goes on. The awaited promise
  settles at its place in that list, or after it when the list leaves it out; when its
  data function rejects, the \<open>await\<close> throws.
\<close>

definition await_first ::
  "(jsval \<Rightarrow> int) \<Rightarrow> (jsval \<Rightarrow> jsval) \<Rightarrow> SetEstimateResult option \<Rightarrow> DataQuickPickItem list \<Rightarrow>
   DataQuickPickItem list \<Rightarrow> (string \<rightharpoonup> int) \<Rightarrow> error + (string \<rightharpoonup> int)" where
  "await_first estimator applyTransforms awaited arrivals st est =
     (case awaited of
        Some (EstimatePromise item) \<Rightarrow>
          (case data item of
             JFunction _ None \<Rightarrow> Inl DataRejected
           | _ \<Rightarrow> Inr (foldl (arrive estimator applyTransforms st) est
                        (if item \<in> set arrivals then arrivals else arrivals @ [item])))
      | _ \<Rightarrow> Inr (foldl (arrive estimator applyTransforms st) est arrivals))"

definition setSteps :: "jsnumber \<Rightarrow> jsnumber \<Rightarrow> DataQuickPick \<Rightarrow> DataQuickPick" where
  "setSteps cur tot q = q\<lparr>step := cur, totalSteps := tot\<rparr>"

text \<open>
  What \<open>setEstimatorHook\<close> leaves behind for the handler of \<open>onDidChangeActive\<close> and for
  the promises that are still to settle: the map of the estimates, the items with a
  started promise, and the step numbers it read.
\<close>

record EstimatorHook =
  estimates :: "string \<rightharpoonup> int"
  promised :: "DataQuickPickItem list"
  current :: jsnumber
  total :: jsnumber

definition estimate_of :: "(string \<rightharpoonup> int) \<Rightarrow> DataQuickPickItem option \<Rightarrow> jsnumber" where
  "estimate_of est item =
     (case item of None \<Rightarrow> NumUndefined
      | Some i \<Rightarrow> (case est (hashItem i) of None \<Rightarrow> NumUndefined | Some n \<Rightarrow> Num n))"

definition setEstimatorHook ::
  "(jsval \<Rightarrow> int) option \<Rightarrow> (jsval \<Rightarrow> jsval) \<Rightarrow> DataQuickPickItem list \<Rightarrow> DataQuickPick \<Rightarrow>
   error + (EstimatorHook option \<times> DataQuickPick)" where
  "setEstimatorHook estimator_opt applyTransforms arrivals q =
     (case estimator_opt of
        None \<Rightarrow> Inr (None, q)
      | Some estimator \<Rightarrow>
          (case setEstimates estimator applyTransforms (items q) Map.empty of (promises, est) \<Rightarrow>
             (let cur = step q; tot = totalSteps q
              in if length promises > 0
                 then (case await_first estimator applyTransforms (js_index promises 0) arrivals (started promises) est of
                         Inl e \<Rightarrow> Inl e
                       | Inr est' \<Rightarrow>
                           Inr (Some \<lparr>estimates = est', promised = started promises, current = cur, total = tot\<rparr>,
                                setSteps cur (js_add tot (estimate_of est' (js_index (items q) 0))) q))
                 else Inr (Some \<lparr>estimates = est, promised = started promises, current = cur, total = tot\<rparr>, q))))"

text \<open>The handler that \<open>setEstimatorHook\<close> registers for a change of the active items.\<close>

definition onDidChangeActive ::
  "(jsval \<Rightarrow> int) \<Rightarrow> (jsval \<Rightarrow> jsval) \<Rightarrow> EstimatorHook \<Rightarrow> DataQuickPickItem list \<Rightarrow> DataQuickPickItem list \<Rightarrow>
   DataQuickPick \<Rightarrow> error + (EstimatorHook \<times> DataQuickPick)" where
  "onDidChangeActive estimator applyTransforms hk active arrivals q =
     (if length active = 0 then Inr (hk, q)
      else
        (case setEstimates estimator applyTransforms
                (filter (\<lambda>item. estimates hk (hashItem item) = None) active) (estimates hk) of
           (sets, est) \<Rightarrow>
             (case await_first estimator applyTransforms (js_index sets 0) arrivals (promised hk @ started sets) est of
                Inl e \<Rightarrow> Inl e
              | Inr est' \<Rightarrow>
                  Inr (hk\<lparr>estimates := est', promised := promised hk @ started sets\<rparr>,
                       setSteps (current hk)
                         (js_add (total hk)
                            (case js_index active 0 of
                               None \<Rightarrow> NumUndefined
                             | Some i \<Rightarrow> Num (case est' (hashItem i) of None \<Rightarrow> 0 | Some n \<Rightarrow> n))) q))))"



text \<open>
  What \<open>QuickPickPrompter.promptUser\<close> returns for the choices the prompt resolved with:
  the data of the first choice, or what it resolves to when it is a function.
\<close>

definition choiceResult :: "DataQuickPickItem list \<Rightarrow> error + jsval" where
  "choiceResult choices =
     (case js_index choices 0 of
        None \<Rightarrow> Inl TypeError
      | Some c \<Rightarrow>
          (case data c of
             JFunction _ None \<Rightarrow> Inl DataRejected
           | JFunction _ (Some v) \<Rightarrow> Inr v
           | d \<Rightarrow> Inr d))"


section \<open>Vocabulary of the statements\<close>

text \<open>
  A consistent comparison function, as ECMAScript defines it: equality by \<open>f\<close> is
  reflexive, symmetric and transitive, and so are less and greater by \<open>f\<close> transitive.
\<close>

definition consistent :: "('a \<Rightarrow> 'a \<Rightarrow> int) \<Rightarrow> bool" where
  "consistent f =
     ((\<forall>a. f a a = 0) \<and> (\<forall>a b. f a b = 0 \<longrightarrow> f b a = 0) \<and>
      (\<forall>a b c. f a b = 0 \<and> f b c = 0 \<longrightarrow> f a c = 0) \<and>
      (\<forall>a b c. f a b < 0 \<and> f b c < 0 \<longrightarrow> f a c < 0) \<and>
      (\<forall>a b c. f a b > 0 \<and> f b c > 0 \<longrightarrow> f a c > 0))"

text \<open>Two states of a prompter with the same options and the same \<open>busy\<close> and \<open>enabled\<close>.\<close>

definition same_flags :: "QuickPickPrompter \<Rightarrow> QuickPickPrompter \<Rightarrow> bool" where
  "same_flags p p' = (options p' = options p \<and> busy (quickPick p') = busy (quickPick p) \<and>
     enabled (quickPick p') = enabled (quickPick p))"

text \<open>The item made from the text of the filter box.\<close>

definition is_custom :: "DataQuickPickItem \<Rightarrow> bool" where
  "is_custom item = strict_eq (data item) CUSTOM_USER_INPUT"














section \<open>Sample items and pickers\<close>

definition emptyPick :: DataQuickPick where
  "emptyPick = \<lparr>items = [], activeItems = [], selectedItems = [], busy = False, enabled = True,
     filterValue = [], step = NumUndefined, totalSteps = NumUndefined\<rparr>"

definition itemA :: DataQuickPickItem where
  "itemA = plainItem ''a'' (JStr ''a'')"

definition itemB :: DataQuickPickItem where
  "itemB = plainItem ''b'' (JStr ''b'')"

definition noOptions :: ExtendedQuickPickOptions where
  "noOptions = \<lparr>compare = None, placeholderItem = None, errorItem = None, showSelectedPreviously = True\<rparr>"


definition itemInvalid :: DataQuickPickItem where
  "itemInvalid = (plainItem ''bad'' (JStr ''bad''))\<lparr>invalidSelection := True, onClick := Some 3\<rparr>"

definition itemFn :: DataQuickPickItem where
  "itemFn = plainItem ''later'' (JFunction 1 (Some (JNum 1)))"

definition itemObj :: DataQuickPickItem where
  "itemObj = plainItem ''obj'' (JObject 1 [(''k'', JNum 1)])"

definition prompterMixed :: QuickPickPrompter where
  "prompterMixed = \<lparr>quickPick = emptyPick\<lparr>items := [itemFn, itemObj, itemA]\<rparr>, options = noOptions,
     isShowingPlaceholder = False\<rparr>"

definition itemRejecting :: DataQuickPickItem where
  "itemRejecting = plainItem ''broken'' (JFunction 2 None)"

definition itemNull :: DataQuickPickItem where
  "itemNull = plainItem ''nothing'' JNull"

definition prompterNull :: QuickPickPrompter where
  "prompterNull = \<lparr>quickPick = emptyPick\<lparr>items := [itemB, itemNull, itemA]\<rparr>, options = noOptions,
     isShowingPlaceholder = False\<rparr>"

definition prompterEmpty :: QuickPickPrompter where
  "prompterEmpty = \<lparr>quickPick = emptyPick, options = noOptions, isShowingPlaceholder = False\<rparr>"

definition twoPages :: "nat \<Rightarrow> IteratorResult" where
  "twoPages n = (if n = 0 then Next (Some [itemA]) False else if n = 1 then Next (Some [itemB]) False else Next None True)"

definition itemNone :: DataQuickPickItem where
  "itemNone = (plainItem ''No items found'' JUndefined)"

definition itemError :: DataQuickPickItem where
  "itemError = (plainItem ''Failed to load items'' JUndefined)"

definition prompterConfigured :: QuickPickPrompter where
  "prompterConfigured = \<lparr>quickPick = emptyPick,
     options = noOptions\<lparr>placeholderItem := Some itemNone, errorItem := Some itemError\<rparr>,
     isShowingPlaceholder = False\<rparr>"


definition noPages :: "nat \<Rightarrow> IteratorResult" where
  "noPages n = Next None True"

definition failingPages :: "nat \<Rightarrow> IteratorResult" where
  "failingPages n = (if n = 0 then Next (Some [itemA]) False else NextRejects (LoadError ''boom''))"

definition byLabelLength :: "DataQuickPickItem \<Rightarrow> DataQuickPickItem \<Rightarrow> int" where
  "byLabelLength a b = int (length (label a)) - int (length (label b))"

definition itemLong :: DataQuickPickItem where
  "itemLong = plainItem ''long label'' (JNum 3)"

definition parseInt_settings :: FilterBoxInputSettings where
  "parseInt_settings = \<lparr>fb_label = ''Enter a value'',
     fb_transform = (\<lambda>v. if v = ''7'' then JNum 7 else JUndefined),
     fb_validator = Some (\<lambda>v. if v = ''7'' \<or> v = ''8'' then None else Some ''not a number'')\<rparr>"

definition itemSkip :: DataQuickPickItem where
  "itemSkip = (plainItem ''skipped'' (JStr ''s''))\<lparr>skipEstimate := True\<rparr>"

definition itemTwin :: DataQuickPickItem where
  "itemTwin = plainItem ''a'' (JStr ''abcdefgh'')"

definition stepsOfLength :: "jsval \<Rightarrow> int" where
  "stepsOfLength v = (case v of JStr str \<Rightarrow> int (length str) | JNum n \<Rightarrow> n | _ \<Rightarrow> 0)"

definition pickStep1of2 :: "DataQuickPickItem list \<Rightarrow> DataQuickPick" where
  "pickStep1of2 its = emptyPick\<lparr>items := its, step := Num 1, totalSteps := Num 2\<rparr>"

section \<open>Properties\<close>

subsection \<open>The prompt\<close>

lemma fireOnClicks_eq:
  "fireOnClicks sel log = log @ concat (map (\<lambda>item. case onClick item of Some c \<Rightarrow> [c] | None \<Rightarrow> []) sel)"
  by (induction sel arbitrary: log) (simp_all split: option.splits)




lemma finally_outcome: "outcome (finally_dispose s) = outcome s"
  by (simp add: finally_dispose_def split: promise.splits)













subsection \<open>Recovering items\<close>

lemma find_Some_props: "find P xs = Some x \<Longrightarrow> x \<in> set xs \<and> P x"
  by (induction xs) (auto split: if_splits)

lemma find_None_props: "find P xs = None \<Longrightarrow> \<forall>x \<in> set xs. \<not> P x"
  by (induction xs) (auto split: if_splits)

lemma recover_Some:
  assumes "recoverItemFromData d its = Some r"
  shows "r \<in> set its" and "typeof (data r) \<noteq> TFunction"
    and "typeof (data r) = TObject \<Longrightarrow> JSON_stringify d = JSON_stringify (data r)"
    and "typeof (data r) \<noteq> TObject \<Longrightarrow> strict_eq d (data r)"
  using find_Some_props[OF assms[unfolded recoverItemFromData_def Let_def]]
  by (auto split: if_splits)

lemma recover_finds:
  assumes "item \<in> set its" 
   and "(typeof (data item) = TObject \<and> JSON_stringify d = JSON_stringify (data item)) \<or>
        (typeof (data item) \<noteq> TObject \<and> typeof (data item) \<noteq> TFunction \<and> strict_eq d (data item))"
  shows "recoverItemFromData d its \<noteq> None"
proof
  assume "recoverItemFromData d its = None"
  from find_None_props[OF this[unfolded recoverItemFromData_def Let_def]] assms
  show False by auto
qed

lemma label_markSelected: "label (markSelected sp item) = label item"
  by (simp add: markSelected_def)

lemma filter_marked:
  "filter (\<lambda>item. Some (label item) = w) (map (\<lambda>item. if Some (label item) = w then markSelected sp item else item) xs)
   = map (markSelected sp) (filter (\<lambda>item. Some (label item) = w) xs)"
  by (induction xs) (simp_all add: label_markSelected)

lemma setLastResponse_unfold:
  assumes "pk \<noteq> PickedValue JUndefined" and "isDataQuickPickItem pk = Inr isItem"
    and "wanted = (case isItem of
                   None \<Rightarrow> (case pk of PickedValue v \<Rightarrow> map_option label (recoverItemFromData v (items (quickPick p)))
                                     | PickedItem item \<Rightarrow> Some (label item))
                 | Some l \<Rightarrow> Some l)"
  shows "fst (setLastResponse sp pk p) = None"
    and "showSelectedPreviously (options p) \<Longrightarrow> items (quickPick (snd (setLastResponse sp pk p))) =
         map (\<lambda>item. if Some (label item) = wanted then markSelected sp item else item) (items (quickPick p))"
    and "\<not> showSelectedPreviously (options p) \<Longrightarrow> items (quickPick (snd (setLastResponse sp pk p))) = items (quickPick p)"
    and "activeItems (quickPick (snd (setLastResponse sp pk p))) =
         (if filter (\<lambda>item. Some (label item) = wanted) (items (quickPick (snd (setLastResponse sp pk p)))) = []
          then [js_index (items (quickPick (snd (setLastResponse sp pk p)))) 0]
          else map Some (filter (\<lambda>item. Some (label item) = wanted) (items (quickPick (snd (setLastResponse sp pk p))))))"
  using assms by (simp_all add: setLastResponse_def Let_def)

lemma setLastResponse_items_labels:
  assumes "pk \<noteq> PickedValue JUndefined" and "isDataQuickPickItem pk = Inr isItem"
  shows "map label (items (quickPick (snd (setLastResponse sp pk p)))) = map label (items (quickPick p))"
  using assms by (simp add: setLastResponse_def Let_def label_markSelected o_def)


lemma filter_wanted_marked_empty:
  "(filter (\<lambda>item. Some (label item) = w) (map (\<lambda>item. if Some (label item) = w then markSelected sp item else item) xs) = [])
   = (filter (\<lambda>item. Some (label item) = w) xs = [])"
  by (simp add: filter_marked)

lemma setLastResponse_match:
  assumes "pk \<noteq> PickedValue JUndefined" and "isDataQuickPickItem pk = Inr isItem"
    and "wanted = (case isItem of
                   None \<Rightarrow> (case pk of PickedValue v \<Rightarrow> map_option label (recoverItemFromData v (items (quickPick p)))
                                     | PickedItem item \<Rightarrow> Some (label item))
                 | Some l \<Rightarrow> Some l)"
    and "x \<in> set (items (quickPick p))" and "Some (label x) = wanted"
  shows "activeItems (quickPick (snd (setLastResponse sp pk p))) =
          map Some (filter (\<lambda>item. Some (label item) = wanted) (items (quickPick (snd (setLastResponse sp pk p)))))"
    and "activeItems (quickPick (snd (setLastResponse sp pk p))) \<noteq> []"
proof -
  let ?its' = "items (quickPick (snd (setLastResponse sp pk p)))"
  have ne: "filter (\<lambda>item. Some (label item) = wanted) (items (quickPick p)) \<noteq> []"
    using assms(4,5) by (auto simp: filter_empty_conv)
  have ne': "filter (\<lambda>item. Some (label item) = wanted) ?its' \<noteq> []"
  proof (cases "showSelectedPreviously (options p)")
    case True
    show ?thesis
      unfolding setLastResponse_unfold(2)[OF assms(1,2,3) True] filter_wanted_marked_empty
      by (rule ne)
  next
    case False
    show ?thesis
      unfolding setLastResponse_unfold(3)[OF assms(1,2,3) False] by (rule ne)
  qed
  show "activeItems (quickPick (snd (setLastResponse sp pk p))) = map Some (filter (\<lambda>item. Some (label item) = wanted) ?its')"
    using setLastResponse_unfold(4)[OF assms(1,2,3), of sp] ne' by simp
  then show "activeItems (quickPick (snd (setLastResponse sp pk p))) \<noteq> []"
    using ne' by simp
qed

lemma setLastResponse_no_match:
  assumes "pk \<noteq> PickedValue JUndefined" and "isDataQuickPickItem pk = Inr isItem"
    and "wanted = (case isItem of
                   None \<Rightarrow> (case pk of PickedValue v \<Rightarrow> map_option label (recoverItemFromData v (items (quickPick p)))
                                     | PickedItem item \<Rightarrow> Some (label item))
                 | Some l \<Rightarrow> Some l)"
    and "\<forall>x \<in> set (items (quickPick p)). Some (label x) \<noteq> wanted"
  shows "setLastResponse sp pk p = (None, p\<lparr>quickPick := (quickPick p)\<lparr>activeItems := [js_index (items (quickPick p)) 0]\<rparr>\<rparr>)"
proof -
  have e: "filter (\<lambda>item. Some (label item) = wanted) (items (quickPick p)) = []"
    using assms(4) by (auto simp: filter_empty_conv)
  have m: "map (\<lambda>item. if Some (label item) = wanted then markSelected sp item else item) (items (quickPick p)) = items (quickPick p)"
    using assms(4) by (simp add: map_idI)
  have "setLastResponse sp pk p =
     (let q = quickPick p;
               is_active = (\<lambda>item. Some (label item) = wanted);
               its = (if showSelectedPreviously (options p)
                      then map (\<lambda>item. if is_active item then markSelected sp item else item) (items q)
                      else items q);
               act = map Some (filter is_active its);
               act' = (if length act = 0 then [js_index its 0] else act)
           in (None, p\<lparr>quickPick := q\<lparr>items := its, activeItems := act'\<rparr>\<rparr>))"
    unfolding assms(3) using assms(1,2) by (simp add: setLastResponse_def Let_def)
  then show ?thesis
    using e m by (simp add: Let_def)
qed

subsection \<open>Step estimates: the code against its description\<close>

lemma js_index_hd: "xs \<noteq> [] \<Longrightarrow> js_index xs 0 = Some (hd xs)"
  by (cases xs) simp_all































subsection \<open>Outcomes of a prompt, accepting, and the last response\<close>




lemma concat_onClick:
  "concat (map (\<lambda>item. case onClick item of Some c \<Rightarrow> [c] | None \<Rightarrow> []) sel) = List.map_filter onClick sel"
  by (induction sel) (auto simp: List.map_filter_simps split: option.splits)

text \<open>
  C2. An accept with an empty selection changes nothing; an accept with an invalid item
  among the selected ones leaves the promise as it was; and whenever the selection is
  not empty, the \<open>onClick\<close> of every selected item that has one has been called, in
  order, whether or not the accept is then ignored for an invalid item.
\<close>

theorem acceptItems_checks:
  "(selectedItems (picker s) = [] \<longrightarrow> acceptItems s = s) \<and>
   (list_ex invalidSelection (selectedItems (picker s)) \<longrightarrow> outcome (acceptItems s) = outcome s) \<and>
   (selectedItems (picker s) \<noteq> [] \<longrightarrow>
      clickLog (acceptItems s) = clickLog s @ List.map_filter onClick (selectedItems (picker s)))"
  by (auto simp add: acceptItems_def Let_def resolve_def fireOnClicks_eq concat_onClick split: promise.splits)

text \<open>
  C2 on an empty selection, and on a selection whose first item is invalid and has an
  \<open>onClick\<close>: the callback is logged and the promise stays pending.
\<close>

theorem acceptItems_checks_witness:
  "(let s0 = promptUser emptyPick; s1 = handle (ChangeSelection [itemInvalid, itemA]) s0 in
     selectedItems (picker s0) = [] \<and> acceptItems s0 = s0 \<and>
     list_ex invalidSelection (selectedItems (picker s1)) \<and> selectedItems (picker s1) \<noteq> [] \<and>
     outcome (acceptItems s1) = Pending \<and> clickLog (acceptItems s1) = [3])"
proof -
  define s0 where "s0 = promptUser emptyPick"
  define s1 where "s1 = handle (ChangeSelection [itemInvalid, itemA]) s0"
  have h0: "selectedItems (picker s0) = []"
    by (simp add: s0_def promptUser_def emptyPick_def)
  have sel: "selectedItems (picker s1) = [itemInvalid, itemA]"
    by (simp add: s1_def)
  have h1: "list_ex invalidSelection (selectedItems (picker s1))"
    by (simp add: sel itemInvalid_def)
  have h2: "selectedItems (picker s1) \<noteq> []"
    by (simp add: sel)
  have o1: "outcome s1 = Pending" and l1: "clickLog s1 = []"
    by (simp_all add: s1_def s0_def promptUser_def)
  have mf: "List.map_filter onClick [itemInvalid, itemA] = [3]"
    by (simp add: List.map_filter_simps itemInvalid_def itemA_def plainItem_def)
  from acceptItems_checks[of s0] h0 have c0: "acceptItems s0 = s0" by blast
  from acceptItems_checks[of s1] h1 o1 have c1: "outcome (acceptItems s1) = Pending" by simp
  from acceptItems_checks[of s1] h2 l1 sel mf have c2: "clickLog (acceptItems s1) = [3]" by simp
  show ?thesis
    unfolding Let_def s0_def[symmetric] s1_def[symmetric]
    using h0 c0 h1 h2 c1 c2 by blast
qed

text \<open>
  What setting the last response does when \<open>isDataQuickPickItem\<close> returns. A value that is
  not itself an item is recovered through its data: the recovered item is in the list,
  its data is not a function, and it matches by \<open>JSON.stringify\<close> when the item's data
  is an object and by \<open>===\<close> otherwise; all items with the recovered item's label
  become active. An item is recovered by its label. When nothing matches, the first item
  of a non-empty list becomes the only active item.
\<close>

lemma setLastResponse_highlights:
  "(v \<noteq> JUndefined \<and> isDataQuickPickItem (PickedValue v) = Inr None \<and>
    recoverItemFromData v (items (quickPick p)) = Some r \<longrightarrow>
      r \<in> set (items (quickPick p)) \<and> typeof (data r) \<noteq> TFunction \<and>
      (if typeof (data r) = TObject then JSON_stringify v = JSON_stringify (data r) else strict_eq v (data r)) \<and>
      fst (setLastResponse sp (PickedValue v) p) = None \<and>
      activeItems (quickPick (snd (setLastResponse sp (PickedValue v) p))) =
        map Some (filter (\<lambda>item. label item = label r) (items (quickPick (snd (setLastResponse sp (PickedValue v) p))))) \<and>
      activeItems (quickPick (snd (setLastResponse sp (PickedValue v) p))) \<noteq> []) \<and>
   (x \<in> set (items (quickPick p)) \<and> label x = label picked \<longrightarrow>
      fst (setLastResponse sp (PickedItem picked) p) = None \<and>
      activeItems (quickPick (snd (setLastResponse sp (PickedItem picked) p))) =
        map Some (filter (\<lambda>item. label item = label picked) (items (quickPick (snd (setLastResponse sp (PickedItem picked) p))))) \<and>
      activeItems (quickPick (snd (setLastResponse sp (PickedItem picked) p))) \<noteq> []) \<and>
   (v \<noteq> JUndefined \<and> isDataQuickPickItem (PickedValue v) = Inr None \<and>
    recoverItemFromData v (items (quickPick p)) = None \<and> items (quickPick p) \<noteq> [] \<longrightarrow>
      setLastResponse sp (PickedValue v) p =
        (None, p\<lparr>quickPick := (quickPick p)\<lparr>activeItems := [Some (hd (items (quickPick p)))]\<rparr>\<rparr>)) \<and>
   ((\<forall>x \<in> set (items (quickPick p)). label x \<noteq> label picked) \<and> items (quickPick p) \<noteq> [] \<longrightarrow>
      setLastResponse sp (PickedItem picked) p =
        (None, p\<lparr>quickPick := (quickPick p)\<lparr>activeItems := [Some (hd (items (quickPick p)))]\<rparr>\<rparr>))"
proof -
  have idx: "items (quickPick p) \<noteq> [] \<Longrightarrow> js_index (items (quickPick p)) 0 = Some (hd (items (quickPick p)))"
    by (cases "items (quickPick p)") simp_all
  have A: "fst (setLastResponse sp (PickedValue v) p) = None \<and>
      activeItems (quickPick (snd (setLastResponse sp (PickedValue v) p))) =
        map Some (filter (\<lambda>item. label item = label r) (items (quickPick (snd (setLastResponse sp (PickedValue v) p))))) \<and>
      activeItems (quickPick (snd (setLastResponse sp (PickedValue v) p))) \<noteq> []"
    if h: "v \<noteq> JUndefined" "isDataQuickPickItem (PickedValue v) = Inr None"
       "recoverItemFromData v (items (quickPick p)) = Some r"
  proof -
    have u: "PickedValue v \<noteq> PickedValue JUndefined" using h(1) by simp
    have w: "Some (label r) = (case None of
                   None \<Rightarrow> (case PickedValue v of PickedValue v \<Rightarrow> map_option label (recoverItemFromData v (items (quickPick p)))
                                     | PickedItem item \<Rightarrow> Some (label item))
                 | Some l \<Rightarrow> Some l)" using h(3) by simp
    have rin: "r \<in> set (items (quickPick p))" using recover_Some(1)[OF h(3)] .
    show ?thesis
      using setLastResponse_unfold(1)[OF u h(2) w, of sp]
            setLastResponse_match[OF u h(2) w rin refl, of sp] by simp
  qed
  have B: "fst (setLastResponse sp (PickedItem picked) p) = None \<and>
      activeItems (quickPick (snd (setLastResponse sp (PickedItem picked) p))) =
        map Some (filter (\<lambda>item. label item = label picked) (items (quickPick (snd (setLastResponse sp (PickedItem picked) p))))) \<and>
      activeItems (quickPick (snd (setLastResponse sp (PickedItem picked) p))) \<noteq> []"
    if h: "x \<in> set (items (quickPick p))" "label x = label picked"
  proof -
    have u: "PickedItem picked \<noteq> PickedValue JUndefined" by simp
    have i: "isDataQuickPickItem (PickedItem picked) = Inr (Some (label picked))" by simp
    have w: "Some (label picked) = (case Some (label picked) of
                   None \<Rightarrow> (case PickedItem picked of PickedValue v \<Rightarrow> map_option label (recoverItemFromData v (items (quickPick p)))
                                     | PickedItem item \<Rightarrow> Some (label item))
                 | Some l \<Rightarrow> Some l)" by simp
    have e: "Some (label x) = Some (label picked)" using h(2) by simp
    show ?thesis
      using setLastResponse_unfold(1)[OF u i w, of sp]
            setLastResponse_match[OF u i w h(1) e, of sp] by simp
  qed
  have C: "setLastResponse sp (PickedValue v) p =
        (None, p\<lparr>quickPick := (quickPick p)\<lparr>activeItems := [Some (hd (items (quickPick p)))]\<rparr>\<rparr>)"
    if h: "v \<noteq> JUndefined" "isDataQuickPickItem (PickedValue v) = Inr None"
       "recoverItemFromData v (items (quickPick p)) = None" "items (quickPick p) \<noteq> []"
  proof -
    have u: "PickedValue v \<noteq> PickedValue JUndefined" using h(1) by simp
    have w: "None = (case None of
                   None \<Rightarrow> (case PickedValue v of PickedValue v \<Rightarrow> map_option label (recoverItemFromData v (items (quickPick p)))
                                     | PickedItem item \<Rightarrow> Some (label item))
                 | Some l \<Rightarrow> Some l)" using h(3) by simp
    show ?thesis
      using setLastResponse_no_match[OF u h(2) w, of sp] idx[OF h(4)] by simp
  qed
  have D: "setLastResponse sp (PickedItem picked) p =
        (None, p\<lparr>quickPick := (quickPick p)\<lparr>activeItems := [Some (hd (items (quickPick p)))]\<rparr>\<rparr>)"
    if h: "\<forall>x \<in> set (items (quickPick p)). label x \<noteq> label picked" "items (quickPick p) \<noteq> []"
  proof -
    have u: "PickedItem picked \<noteq> PickedValue JUndefined" by simp
    have i: "isDataQuickPickItem (PickedItem picked) = Inr (Some (label picked))" by simp
    have w: "Some (label picked) = (case Some (label picked) of
                   None \<Rightarrow> (case PickedItem picked of PickedValue v \<Rightarrow> map_option label (recoverItemFromData v (items (quickPick p)))
                                     | PickedItem item \<Rightarrow> Some (label item))
                 | Some l \<Rightarrow> Some l)" by simp
    have n: "\<forall>x \<in> set (items (quickPick p)). Some (label x) \<noteq> Some (label picked)" using h(1) by simp
    show ?thesis
      using setLastResponse_no_match[OF u i w n, of sp] idx[OF h(2)] by simp
  qed
  have R: "r \<in> set (items (quickPick p)) \<and> typeof (data r) \<noteq> TFunction \<and>
      (if typeof (data r) = TObject then JSON_stringify v = JSON_stringify (data r) else strict_eq v (data r))"
    if h: "recoverItemFromData v (items (quickPick p)) = Some r"
    using recover_Some[OF h] by simp
  show ?thesis using A B C D R by blast
qed

lemma labels_of_Some: "labels_of (map Some xs) = Inr (map label xs)"
  by (induction xs) simp_all

lemma mixed_items: "items (quickPick prompterMixed) = [itemFn, itemObj, itemA]"
  by (simp add: prompterMixed_def)

lemma recover_obj: "recoverItemFromData (JObject 9 [(''k'', JNum 1)]) [itemFn, itemObj, itemA] = Some itemObj"
  by (simp add: recoverItemFromData_def itemFn_def itemObj_def itemA_def plainItem_def)

lemma recover_none: "recoverItemFromData (JNum 1) [itemFn, itemObj, itemA] = None"
  by (simp add: recoverItemFromData_def itemFn_def itemObj_def itemA_def plainItem_def show_int_def)

text \<open>
  On a list of three items: an object equal to the second item's data up to identity
  recovers it, an item recovers itself by label, and a number or a label that nothing
  matches highlights the first item, whose data is a function.
\<close>

lemma setLastResponse_examples:
  "JObject 9 [(''k'', JNum 1)] \<noteq> JUndefined \<and>
   isDataQuickPickItem (PickedValue (JObject 9 [(''k'', JNum 1)])) = Inr None \<and>
   recoverItemFromData (JObject 9 [(''k'', JNum 1)]) (items (quickPick prompterMixed)) = Some itemObj \<and>
   activeItems (quickPick (snd (setLastResponse ''Selected previously'' (PickedValue (JObject 9 [(''k'', JNum 1)])) prompterMixed)))
     = [Some (markSelected ''Selected previously'' itemObj)] \<and>
   itemA \<in> set (items (quickPick prompterMixed)) \<and>
   activeItems (quickPick (snd (setLastResponse ''Selected previously'' (PickedItem itemA) prompterMixed)))
     = [Some (markSelected ''Selected previously'' itemA)] \<and>
   JNum 1 \<noteq> JUndefined \<and> isDataQuickPickItem (PickedValue (JNum 1)) = Inr None \<and>
   recoverItemFromData (JNum 1) (items (quickPick prompterMixed)) = None \<and> items (quickPick prompterMixed) \<noteq> [] \<and>
   activeItems (quickPick (snd (setLastResponse ''Selected previously'' (PickedValue (JNum 1)) prompterMixed))) = [Some itemFn] \<and>
   label itemB \<notin> set (map label (items (quickPick prompterMixed))) \<and>
   activeItems (quickPick (snd (setLastResponse ''Selected previously'' (PickedItem itemB) prompterMixed))) = [Some itemFn]"
proof -
  let ?sp = "''Selected previously''"
  let ?v = "JObject 9 [(''k'', JNum 1)]"
  note T1 = setLastResponse_highlights[of ?v prompterMixed itemObj ?sp itemA itemA]
  note T2 = setLastResponse_highlights[of "JNum 1" prompterMixed itemObj ?sp itemA itemB]
  have h1: "?v \<noteq> JUndefined" "isDataQuickPickItem (PickedValue ?v) = Inr None"
    "recoverItemFromData ?v (items (quickPick prompterMixed)) = Some itemObj"
    by (simp_all add: mixed_items recover_obj)
  have h2: "itemA \<in> set (items (quickPick prompterMixed))" by (simp add: mixed_items)
  have h3: "JNum 1 \<noteq> JUndefined" "isDataQuickPickItem (PickedValue (JNum 1)) = Inr None"
    "recoverItemFromData (JNum 1) (items (quickPick prompterMixed)) = None" "items (quickPick prompterMixed) \<noteq> []"
    by (simp_all add: mixed_items recover_none)
  have h4: "\<forall>x \<in> set (items (quickPick prompterMixed)). label x \<noteq> label itemB"
    by (simp add: mixed_items itemFn_def itemObj_def itemA_def itemB_def plainItem_def)
  have lbls: "label itemFn = ''later''" "label itemObj = ''obj''" "label itemA = ''a''"
    by (simp_all add: itemFn_def itemObj_def itemA_def plainItem_def)
  have its1: "items (quickPick (snd (setLastResponse ?sp (PickedValue ?v) prompterMixed)))
      = [itemFn, markSelected ?sp itemObj, itemA]"
    using lbls by (simp add: setLastResponse_def Let_def recover_obj prompterMixed_def noOptions_def)
  have its2: "items (quickPick (snd (setLastResponse ?sp (PickedItem itemA) prompterMixed)))
      = [itemFn, itemObj, markSelected ?sp itemA]"
    using lbls by (simp add: setLastResponse_def Let_def prompterMixed_def noOptions_def)
  have lbl: "label itemFn \<noteq> label itemObj" "label itemA \<noteq> label itemObj" "label itemFn \<noteq> label itemA"
      "label itemObj \<noteq> label itemA"
    by (simp_all add: itemFn_def itemObj_def itemA_def plainItem_def)
  from T1 h1 have c1: "activeItems (quickPick (snd (setLastResponse ?sp (PickedValue ?v) prompterMixed))) =
        map Some (filter (\<lambda>item. label item = label itemObj) (items (quickPick (snd (setLastResponse ?sp (PickedValue ?v) prompterMixed)))))"
    by blast
  from T1 h2 have c2: "activeItems (quickPick (snd (setLastResponse ?sp (PickedItem itemA) prompterMixed))) =
        map Some (filter (\<lambda>item. label item = label itemA) (items (quickPick (snd (setLastResponse ?sp (PickedItem itemA) prompterMixed)))))"
    by blast
  from T2 h3 have c3: "setLastResponse ?sp (PickedValue (JNum 1)) prompterMixed =
        (None, prompterMixed\<lparr>quickPick := (quickPick prompterMixed)\<lparr>activeItems := [Some (hd (items (quickPick prompterMixed)))]\<rparr>\<rparr>)"
    by blast
  from T2 h4 h3(4) have c4: "setLastResponse ?sp (PickedItem itemB) prompterMixed =
        (None, prompterMixed\<lparr>quickPick := (quickPick prompterMixed)\<lparr>activeItems := [Some (hd (items (quickPick prompterMixed)))]\<rparr>\<rparr>)"
    by blast
  have a1: "activeItems (quickPick (snd (setLastResponse ?sp (PickedValue ?v) prompterMixed))) = [Some (markSelected ?sp itemObj)]"
    unfolding c1 its1 using lbl by (simp add: label_markSelected)
  have a2: "activeItems (quickPick (snd (setLastResponse ?sp (PickedItem itemA) prompterMixed))) = [Some (markSelected ?sp itemA)]"
    unfolding c2 its2 using lbl by (simp add: label_markSelected)
  have a3: "activeItems (quickPick (snd (setLastResponse ?sp (PickedValue (JNum 1)) prompterMixed))) = [Some itemFn]"
    unfolding c3 by (simp add: mixed_items)
  have a4: "activeItems (quickPick (snd (setLastResponse ?sp (PickedItem itemB) prompterMixed))) = [Some itemFn]"
    unfolding c4 by (simp add: mixed_items)
  have h4': "label itemB \<notin> set (map label (items (quickPick prompterMixed)))"
    using h4 by auto
  show ?thesis using h1 h2 h3 h4' a1 a2 a3 a4 by blast
qed

text \<open>
  A value is recovered through the first item whose data answers to it, so an item with
  equal data is always found.
\<close>

lemma recover_first:
  assumes "its = pre @ x # post"
    and "\<forall>y \<in> set pre. typeof (data y) = TFunction \<or>
           (typeof (data y) = TObject \<and> JSON_stringify d \<noteq> JSON_stringify (data y)) \<or>
           (typeof (data y) \<noteq> TObject \<and> \<not> strict_eq d (data y))"
    and "(typeof (data x) = TObject \<and> JSON_stringify d = JSON_stringify (data x)) \<or>
         (typeof (data x) \<noteq> TObject \<and> typeof (data x) \<noteq> TFunction \<and> strict_eq d (data x))"
  shows "recoverItemFromData d its = Some x"
  using assms(2,3) unfolding assms(1) recoverItemFromData_def Let_def
  by (induction pre) auto

text \<open>
  C8 fails on the code for the answer \<open>null\<close>. \<open>recoverItemFromData\<close> finds the item whose
  data is \<open>null\<close>, by the comparison for objects, but \<open>setLastResponse\<close> never calls it:
  \<open>isDataQuickPickItem\<close> takes \<open>null\<close> for an object and throws a TypeError on reading its
  label, so nothing is highlighted. For the answer \<open>a\<close> on the same list the item with
  that data is highlighted, and for an answer that no item has, the first item is.
\<close>

theorem setLastResponse_null:
  "recoverItemFromData JNull (items (quickPick prompterNull)) = Some itemNull \<and>
   setLastResponse ''Selected previously'' (PickedValue JNull) prompterNull = (Some TypeError, prompterNull) \<and>
   activeItems (quickPick prompterNull) = [] \<and>
   setLastResponse ''Selected previously'' (PickedValue (JStr ''a'')) prompterNull =
     (None, prompterNull\<lparr>quickPick := emptyPick\<lparr>items := [itemB, itemNull, markSelected ''Selected previously'' itemA],
                                                   activeItems := [Some (markSelected ''Selected previously'' itemA)]\<rparr>\<rparr>) \<and>
   setLastResponse ''Selected previously'' (PickedValue (JStr ''z'')) prompterNull =
     (None, prompterNull\<lparr>quickPick := emptyPick\<lparr>items := [itemB, itemNull, itemA], activeItems := [Some itemB]\<rparr>\<rparr>)"
proof -
  have lbl: "label itemA = ''a''" "label itemB = ''b''" "label itemNull = ''nothing''"
    by (simp_all add: itemA_def itemB_def itemNull_def plainItem_def)
  have dat: "data itemA = JStr ''a''" "data itemB = JStr ''b''" "data itemNull = JNull"
    by (simp_all add: itemA_def itemB_def itemNull_def plainItem_def)
  have its: "items (quickPick prompterNull) = [itemB, itemNull, itemA]"
    by (simp add: prompterNull_def)
  have r0: "recoverItemFromData JNull [itemB, itemNull, itemA] = Some itemNull"
    by (simp add: recoverItemFromData_def dat)
  have r1: "recoverItemFromData (JStr ''a'') [itemB, itemNull, itemA] = Some itemA"
    by (simp add: recoverItemFromData_def dat quote_def)
  have r2: "recoverItemFromData (JStr ''z'') [itemB, itemNull, itemA] = None"
    by (simp add: recoverItemFromData_def dat quote_def)
  have t0: "setLastResponse ''Selected previously'' (PickedValue JNull) prompterNull = (Some TypeError, prompterNull)"
    by (simp add: setLastResponse_def)
  have a0: "activeItems (quickPick prompterNull) = []"
    by (simp add: prompterNull_def emptyPick_def)
  have t1: "setLastResponse ''Selected previously'' (PickedValue (JStr ''a'')) prompterNull =
     (None, prompterNull\<lparr>quickPick := emptyPick\<lparr>items := [itemB, itemNull, markSelected ''Selected previously'' itemA],
                                                   activeItems := [Some (markSelected ''Selected previously'' itemA)]\<rparr>\<rparr>)"
    using lbl by (simp add: setLastResponse_def Let_def r1 prompterNull_def noOptions_def label_markSelected)
  have t2: "setLastResponse ''Selected previously'' (PickedValue (JStr ''z'')) prompterNull =
     (None, prompterNull\<lparr>quickPick := emptyPick\<lparr>items := [itemB, itemNull, itemA], activeItems := [Some itemB]\<rparr>\<rparr>)"
    using lbl by (simp add: setLastResponse_def Let_def r2 prompterNull_def noOptions_def)
  show ?thesis using r0 t0 a0 t1 t2 by (simp add: its)
qed



subsection \<open>Loading\<close>

lemma selectItems_quickPick:
  "quickPick (snd (selectItems a p)) = (quickPick p)\<lparr>activeItems := activeItems (quickPick (snd (selectItems a p)))\<rparr>"
  by (simp add: selectItems_def Let_def split: sum.splits)

lemma selectItems_rest:
  "options (snd (selectItems a p)) = options p"
  "isShowingPlaceholder (snd (selectItems a p)) = isShowingPlaceholder p"
  "items (quickPick (snd (selectItems a p))) = items (quickPick p)"
  "busy (quickPick (snd (selectItems a p))) = busy (quickPick p)"
  "enabled (quickPick (snd (selectItems a p))) = enabled (quickPick p)"
  by (simp_all add: selectItems_def Let_def split: sum.splits)

lemma appendItems_rest:
  "options (snd (appendItems page p)) = options p"
  "busy (quickPick (snd (appendItems page p))) = busy (quickPick p)"
  "enabled (quickPick (snd (appendItems page p))) = enabled (quickPick p)"
  by (simp_all add: appendItems_def Let_def selectItems_rest)

lemma appendItems_items:
  "items (quickPick (snd (appendItems page p))) =
     (if js_sort (compare (options p)) (items (quickPick p) @ page) = [] \<and> \<not> busy (quickPick p)
      then (case placeholderItem (options p) of Some ph \<Rightarrow> [ph] | None \<Rightarrow> [])
      else js_sort (compare (options p)) (items (quickPick p) @ page))"
  by (simp add: appendItems_def Let_def selectItems_rest)

lemma mset_insert_by: "mset (insert_by f x ys) = add_mset x (mset ys)"
  by (induction ys) simp_all

lemma set_insert_by: "set (insert_by f x ys) = insert x (set ys)"
  by (induction ys) auto

lemma mset_foldl_insert_by: "mset (foldl (\<lambda>acc x. insert_by f x acc) acc xs) = mset acc + mset xs"
  by (induction xs arbitrary: acc) (simp_all add: mset_insert_by)

lemma mset_js_sort: "mset (js_sort cmp xs) = mset xs"
  by (cases cmp) (simp_all add: js_sort_def mset_foldl_insert_by)

lemma js_sort_Nil_iff: "(js_sort cmp xs = []) = (xs = [])"
proof -
  have "(mset (js_sort cmp xs) = {#}) = (mset xs = {#})" by (simp add: mset_js_sort)
  then show ?thesis by simp
qed

lemma consistent_gt_lt: "consistent f \<Longrightarrow> f a b > 0 \<Longrightarrow> f b a < 0"
proof -
  assume c: "consistent f" and g: "f a b > 0"
  have r: "f a a = 0" using c unfolding consistent_def by blast
  have s: "f b a = 0 \<Longrightarrow> f a b = 0" using c unfolding consistent_def by blast
  have t: "f a b > 0 \<Longrightarrow> f b a > 0 \<Longrightarrow> f a a > 0" using c unfolding consistent_def by blast
  show "f b a < 0"
  proof (rule ccontr)
    assume "\<not> f b a < 0"
    then consider "f b a = 0" | "f b a > 0" by linarith
    then show False
    proof cases
      case 1
      then show False using s g by simp
    next
      case 2
      then show False using t[OF g] r by simp
    qed
  qed
qed

lemma consistent_ge_le: "consistent f \<Longrightarrow> \<not> f a b < 0 \<Longrightarrow> f b a \<le> 0"
proof -
  assume c: "consistent f" and g: "\<not> f a b < 0"
  have s: "f a b = 0 \<Longrightarrow> f b a = 0" using c unfolding consistent_def by blast
  from g consider "f a b = 0" | "f a b > 0" by linarith
  then show "f b a \<le> 0"
  proof cases
    case 1
    then show ?thesis using s by simp
  next
    case 2
    then show ?thesis using consistent_gt_lt[OF c] by fastforce
  qed
qed

lemma consistent_le_trans:
  assumes c: "consistent f" and ab: "f a b \<le> 0" and bc: "f b c \<le> 0"
  shows "f a c \<le> 0"
proof (rule ccontr)
  assume "\<not> f a c \<le> 0"
  then have ac: "f a c > 0" by simp
  then have ca: "f c a < 0" using consistent_gt_lt[OF c] by blast
  have sym: "\<And>x y. f x y = 0 \<Longrightarrow> f y x = 0" using c unfolding consistent_def by blast
  have eqt: "\<And>x y z. f x y = 0 \<Longrightarrow> f y z = 0 \<Longrightarrow> f x z = 0" using c unfolding consistent_def by blast
  have ltt: "\<And>x y z. f x y < 0 \<Longrightarrow> f y z < 0 \<Longrightarrow> f x z < 0" using c unfolding consistent_def by blast
  from ab consider "f a b = 0" | "f a b < 0" by linarith
  then show False
  proof cases
    case 1
    from bc consider "f b c = 0" | "f b c < 0" by linarith
    then show False
    proof cases
      case 1
      with \<open>f a b = 0\<close> have "f a c = 0" by (rule eqt[rotated -1, rotated])
      then show False using ac by simp
    next
      case 2
      from ltt[OF 2 ca] have "f b a < 0" .
      moreover have "f b a = 0" using sym[OF \<open>f a b = 0\<close>] .
      ultimately show False by simp
    qed
  next
    case 2
    from ltt[OF ca 2] have cb: "f c b < 0" .
    from bc consider "f b c = 0" | "f b c < 0" by linarith
    then show False
    proof cases
      case 1
      then have "f c b = 0" by (rule sym)
      then show False using cb by simp
    next
      case 2
      from ltt[OF cb 2] have "f c c < 0" .
      moreover have "f c c = 0" using c unfolding consistent_def by blast
      ultimately show False by simp
    qed
  qed
qed

lemma sorted_insert_by:
  assumes "consistent f" and "sorted_wrt (\<lambda>a b. f a b \<le> 0) ys"
  shows "sorted_wrt (\<lambda>a b. f a b \<le> 0) (insert_by f x ys)"
  using assms(2)
proof (induction ys)
  case Nil
  then show ?case by simp
next
  case (Cons e es)
  show ?case
  proof (cases "f x e < 0")
    case True
    have "\<forall>z \<in> set es. f x z \<le> 0"
    proof
      fix z assume "z \<in> set es"
      then have "f e z \<le> 0" using Cons.prems by simp
      with True show "f x z \<le> 0" using consistent_le_trans[OF assms(1), of x e z] by simp
    qed
    then show ?thesis using True Cons.prems by simp
  next
    case False
    then have "f e x \<le> 0" using consistent_ge_le[OF assms(1)] by blast
    then show ?thesis using False Cons by (auto simp: set_insert_by)
  qed
qed

lemma consistent_lt_gt: "consistent f \<Longrightarrow> f a b < 0 \<Longrightarrow> f b a > 0"
proof -
  assume c: "consistent f" and g: "f a b < 0"
  have r: "f a a = 0" using c unfolding consistent_def by blast
  have s: "f b a = 0 \<Longrightarrow> f a b = 0" using c unfolding consistent_def by blast
  have t: "f a b < 0 \<Longrightarrow> f b a < 0 \<Longrightarrow> f a a < 0" using c unfolding consistent_def by blast
  show "f b a > 0"
  proof (rule ccontr)
    assume "\<not> f b a > 0"
    then consider "f b a = 0" | "f b a < 0" by linarith
    then show False
    proof cases
      case 1
      then show False using s g by simp
    next
      case 2
      then show False using t[OF g] r by simp
    qed
  qed
qed

lemma consistent_lt_le_trans:
  assumes c: "consistent f" and ab: "f a b < 0" and bc: "f b c \<le> 0"
  shows "f a c < 0"
proof (rule ccontr)
  assume n: "\<not> f a c < 0"
  have "f a c \<le> 0" using consistent_le_trans[OF c _ bc, of a] ab by simp
  with n have "f a c = 0" by simp
  then have "f c a = 0" using c unfolding consistent_def by blast
  then have "f b a \<le> 0" using consistent_le_trans[OF c bc, of a] by simp
  moreover have "f b a > 0" using consistent_lt_gt[OF c ab] .
  ultimately show False by simp
qed

text \<open>Equal elements keep their order: the sort is stable.\<close>

lemma filter_insert_by:
  assumes c: "consistent f" and "sorted_wrt (\<lambda>a b. f a b \<le> 0) acc"
  shows "filter (\<lambda>y. f y x = 0) (insert_by f z acc) =
         filter (\<lambda>y. f y x = 0) acc @ (if f z x = 0 then [z] else [])"
  using assms(2)
proof (induction acc)
  case Nil
  then show ?case by simp
next
  case (Cons e es)
  have sym: "\<And>u v. f u v = 0 \<Longrightarrow> f v u = 0" using c unfolding consistent_def by blast
  have eqt: "\<And>u v w. f u v = 0 \<Longrightarrow> f v w = 0 \<Longrightarrow> f u w = 0" using c unfolding consistent_def by blast
  show ?case
  proof (cases "f z e < 0")
    case True
    show ?thesis
    proof (cases "f z x = 0")
      case False
      then show ?thesis using True by simp
    next
      case zx: True
      have "\<forall>w \<in> set (e # es). f w x \<noteq> 0"
      proof
        fix w assume w: "w \<in> set (e # es)"
        have "f e w \<le> 0"
        proof (cases "w = e")
          case True
          then show ?thesis using c unfolding consistent_def by simp
        next
          case False
          then show ?thesis using w Cons.prems by simp
        qed
        then have zw: "f z w < 0" using consistent_lt_le_trans[OF c True] by blast
        show "f w x \<noteq> 0"
        proof
          assume "f w x = 0"
          then have "f w z = 0" using eqt[OF _ sym[OF zx]] by blast
          then have "f z w = 0" by (rule sym)
          then show False using zw by simp
        qed
      qed
      then have "filter (\<lambda>y. f y x = 0) (e # es) = []" by (simp add: filter_empty_conv)
      then show ?thesis using True zx by simp
    qed
  next
    case False
    have "sorted_wrt (\<lambda>a b. f a b \<le> 0) es" using Cons.prems by simp
    from Cons.IH[OF this] show ?thesis using False by simp
  qed
qed

lemma stable_foldl_insert_by:
  assumes "consistent f" and "sorted_wrt (\<lambda>a b. f a b \<le> 0) acc"
  shows "filter (\<lambda>y. f y x = 0) (foldl (\<lambda>acc z. insert_by f z acc) acc xs) =
         filter (\<lambda>y. f y x = 0) acc @ filter (\<lambda>y. f y x = 0) xs"
  using assms(2)
proof (induction xs arbitrary: acc)
  case Nil
  then show ?case by simp
next
  case (Cons z zs)
  have "sorted_wrt (\<lambda>a b. f a b \<le> 0) (insert_by f z acc)"
    using sorted_insert_by[OF assms(1) Cons.prems] .
  from Cons.IH[OF this] show ?case
    by (simp add: filter_insert_by[OF assms(1) Cons.prems])
qed

lemma stable_js_sort:
  assumes "consistent f"
  shows "filter (\<lambda>y. f y x = 0) (js_sort (Some f) xs) = filter (\<lambda>y. f y x = 0) xs"
  using stable_foldl_insert_by[OF assms, of "[]" x xs] by (simp add: js_sort_def)

lemma sorted_foldl_insert_by:
  assumes "consistent f" and "sorted_wrt (\<lambda>a b. f a b \<le> 0) acc"
  shows "sorted_wrt (\<lambda>a b. f a b \<le> 0) (foldl (\<lambda>acc x. insert_by f x acc) acc xs)"
  using assms(2) by (induction xs arbitrary: acc) (simp_all add: sorted_insert_by[OF assms(1)])

lemma sorted_js_sort:
  assumes "consistent f"
  shows "sorted_wrt (\<lambda>a b. f a b \<le> 0) (js_sort (Some f) xs)"
  using sorted_foldl_insert_by[OF assms, of "[]" xs] by (simp add: js_sort_def)


lemma loadPages_same_flags:
  assumes "loadPages it n p = Some y"
  shows "same_flags p (snd y)"
proof (rule loadPages.raw_induct[where P = "\<lambda>it n p y. same_flags p (snd y)", OF _ assms])
  fix lp :: "(nat \<Rightarrow> IteratorResult) \<Rightarrow> nat \<Rightarrow> QuickPickPrompter \<Rightarrow> (error option \<times> QuickPickPrompter) option"
  fix it n p y
  assume IH: "\<And>it n p y. lp it n p = Some y \<Longrightarrow> same_flags p (snd y)"
  assume eq: "(case it n of
        NextRejects e \<Rightarrow> Some (Some e, p)
      | Next v d \<Rightarrow>
          (case (case v of None \<Rightarrow> (None, p) | Some page \<Rightarrow> appendItems page p) of
             (Some e, p') \<Rightarrow> Some (Some e, p')
           | (None, p') \<Rightarrow> if d then Some (None, p') else lp it (Suc n) p')) = Some y"
  show "same_flags p (snd y)"
  proof (cases "it n")
    case (NextRejects e)
    then show ?thesis using eq by (auto simp: same_flags_def)
  next
    case (Next v d)
    define r where "r = (case v of None \<Rightarrow> (None, p) | Some page \<Rightarrow> appendItems page p)"
    have pr: "same_flags p (snd r)"
      unfolding r_def by (cases v) (simp_all add: appendItems_rest same_flags_def)
    obtain e p' where r: "r = (e, p')" by (cases r)
    show ?thesis
    proof (cases e)
      case (Some err)
      then have "y = (Some err, p')" using eq Next r r_def by simp
      then show ?thesis using pr r by simp
    next
      case None
      show ?thesis
      proof (cases d)
        case True
        then have "y = (None, p')" using eq Next r r_def None by simp
        then show ?thesis using pr r by simp
      next
        case False
        then have "lp it (Suc n) p' = Some y" using eq Next r r_def None by simp
        from IH[OF this] show ?thesis using pr r by (simp add: same_flags_def)
      qed
    qed
  qed
qed

lemma loadPages_preserves:
  "loadPages it n p = Some y \<Longrightarrow>
     options (snd y) = options p \<and> busy (quickPick (snd y)) = busy (quickPick p) \<and>
     enabled (quickPick (snd y)) = enabled (quickPick p)"
  using loadPages_same_flags[of it n p y] by (simp add: same_flags_def)

lemma loadItems_begin_props:
  "busy (quickPick (loadItems_begin d p))" 
  "enabled (quickPick (loadItems_begin d p)) = (d = Some True)"
  "options (loadItems_begin d p) = options p"
  by (simp_all add: loadItems_begin_def Let_def clearItems_def)

lemma loadItems_body_preserves:
  "loadItems_body ld p = Some y \<Longrightarrow>
     options (snd y) = options p \<and> busy (quickPick (snd y)) = busy (quickPick p) \<and>
     enabled (quickPick (snd y)) = enabled (quickPick p)"
proof (cases ld)
  case (LoadArray its)
  assume "loadItems_body ld p = Some y"
  then show ?thesis using LoadArray by (auto simp: appendItems_rest)
next
  case (LoadPromise pr)
  assume "loadItems_body ld p = Some y"
  then show ?thesis using LoadPromise by (cases pr) (auto simp: appendItems_rest)
next
  case (LoadAsyncIterable it)
  assume "loadItems_body ld p = Some y"
  then show ?thesis using LoadAsyncIterable loadPages_preserves by simp
qed

lemma loadItems_end_props:
  "\<not> busy (quickPick (snd (loadItems_end p)))" "enabled (quickPick (snd (loadItems_end p)))"
  "options (snd (loadItems_end p)) = options p"
  "items (quickPick (snd (loadItems_end p))) =
     (if items (quickPick p) = [] then (case placeholderItem (options p) of Some ph \<Rightarrow> [ph] | None \<Rightarrow> [])
      else js_sort (compare (options p)) (items (quickPick p)))"
  by (simp_all add: loadItems_end_def appendItems_rest appendItems_items js_sort_Nil_iff)

text \<open>
  C9. \<open>loadItems\<close> first sets \<open>busy\<close> to true and \<open>enabled\<close> to the boolean coercion of
  \<open>disableInput\<close>; appending a page changes neither flag, so both keep these values until
  the items have arrived; and a load that completes without throwing leaves \<open>busy\<close> false
  and \<open>enabled\<close> true.
\<close>

theorem loadItems_busy_enabled:
  "busy (quickPick (loadItems_begin d p)) \<and> enabled (quickPick (loadItems_begin d p)) = (d = Some True) \<and>
   busy (quickPick (snd (appendItems page p))) = busy (quickPick p) \<and>
   enabled (quickPick (snd (appendItems page p))) = enabled (quickPick p) \<and>
   (loadItems_body ld (loadItems_begin d p) = Some y \<longrightarrow>
      busy (quickPick (snd y)) \<and> enabled (quickPick (snd y)) = (d = Some True)) \<and>
   (loadItems ld d p = Some (None, p') \<longrightarrow> \<not> busy (quickPick p') \<and> enabled (quickPick p'))"
proof -
  have B: "busy (quickPick (snd y)) \<and> enabled (quickPick (snd y)) = (d = Some True)"
    if "loadItems_body ld (loadItems_begin d p) = Some y"
    using loadItems_body_preserves[OF that] by (simp add: loadItems_begin_props)
  have E: "\<not> busy (quickPick p') \<and> enabled (quickPick p')" if h: "loadItems ld d p = Some (None, p')"
  proof -
    from h obtain p2 where "loadItems_end p2 = (None, p')"
      by (auto simp: loadItems_def split: option.splits prod.splits)
    then have "p' = snd (loadItems_end p2)" by simp
    then show ?thesis by (simp add: loadItems_end_props)
  qed
  show ?thesis using B E by (simp add: loadItems_begin_props appendItems_rest)
qed

text \<open>
  C9 on a load of the plain array holding the item \<open>a\<close>.
\<close>

theorem loadItems_busy_enabled_witness:
  "loadItems_body (LoadArray [itemA]) (loadItems_begin None prompterEmpty) =
     Some (None, prompterEmpty\<lparr>quickPick := emptyPick\<lparr>items := [itemA], activeItems := [Some itemA], busy := True, enabled := False\<rparr>\<rparr>) \<and>
   loadItems (LoadArray [itemA]) None prompterEmpty =
     Some (None, prompterEmpty\<lparr>quickPick := emptyPick\<lparr>items := [itemA], activeItems := [Some itemA]\<rparr>\<rparr>) \<and>
   enabled (quickPick (prompterEmpty\<lparr>quickPick := emptyPick\<lparr>items := [itemA], activeItems := [Some itemA], busy := True, enabled := False\<rparr>\<rparr>))
     = (None = Some True) \<and>
   \<not> busy (quickPick (prompterEmpty\<lparr>quickPick := emptyPick\<lparr>items := [itemA], activeItems := [Some itemA]\<rparr>\<rparr>))"
proof -
  let ?p2 = "prompterEmpty\<lparr>quickPick := emptyPick\<lparr>items := [itemA], activeItems := [Some itemA], busy := True, enabled := False\<rparr>\<rparr>"
  let ?p3 = "prompterEmpty\<lparr>quickPick := emptyPick\<lparr>items := [itemA], activeItems := [Some itemA]\<rparr>\<rparr>"
  have b: "loadItems_body (LoadArray [itemA]) (loadItems_begin None prompterEmpty) = Some (None, ?p2)"
    by (simp add: loadItems_begin_def prompterEmpty_def emptyPick_def noOptions_def appendItems_def
        selectItems_def js_sort_def Let_def)
  have e: "loadItems_end ?p2 = (None, ?p3)"
    by (simp add: loadItems_end_def prompterEmpty_def emptyPick_def noOptions_def appendItems_def
        selectItems_def js_sort_def Let_def)
  have l: "loadItems (LoadArray [itemA]) None prompterEmpty = Some (None, ?p3)"
    unfolding loadItems_def b using e by simp
  note T = loadItems_busy_enabled[of None prompterEmpty "[]" "LoadArray [itemA]" "(None, ?p2)" ?p3]
  from T b have c1: "enabled (quickPick ?p2) = (None = Some True)" by simp
  from T l have c2: "\<not> busy (quickPick ?p3)" by blast
  show ?thesis using b l c1 c2 by blast
qed

text \<open>
  C3. A load whose promise rejects, or whose async iterable rejects on a later page, makes
  \<open>loadItems\<close> itself reject with that error: nothing catches it. The picker stays busy
  and disabled, and the configured \<open>errorItem\<close> is not among the items.
\<close>

theorem loadItems_failure_propagates:
  "loadItems (LoadPromise (Inl e)) d p = Some (Some e, loadItems_begin d p) \<and>
   busy (quickPick (loadItems_begin d p)) \<and>
   errorItem (options prompterConfigured) = Some itemError \<and>
   loadItems (LoadPromise (Inl (LoadError ''boom''))) None prompterConfigured =
     Some (Some (LoadError ''boom''), prompterConfigured\<lparr>quickPick := emptyPick\<lparr>busy := True, enabled := False\<rparr>\<rparr>) \<and>
   loadItems (LoadAsyncIterable failingPages) None prompterConfigured =
     Some (Some (LoadError ''boom''),
       prompterConfigured\<lparr>quickPick := emptyPick\<lparr>items := [itemA], activeItems := [Some itemA], busy := True, enabled := False\<rparr>\<rparr>)"
proof -
  have g: "loadItems (LoadPromise (Inl e)) d p = Some (Some e, loadItems_begin d p)"
    by (simp add: loadItems_def)
  have c: "loadItems (LoadPromise (Inl (LoadError ''boom''))) None prompterConfigured =
     Some (Some (LoadError ''boom''), prompterConfigured\<lparr>quickPick := emptyPick\<lparr>busy := True, enabled := False\<rparr>\<rparr>)"
    by (simp add: loadItems_def loadItems_begin_def prompterConfigured_def emptyPick_def noOptions_def Let_def)
  have i: "loadItems (LoadAsyncIterable failingPages) None prompterConfigured =
     Some (Some (LoadError ''boom''),
       prompterConfigured\<lparr>quickPick := emptyPick\<lparr>items := [itemA], activeItems := [Some itemA], busy := True, enabled := False\<rparr>\<rparr>)"
    by (simp add: loadItems_def loadItems_begin_def prompterConfigured_def emptyPick_def noOptions_def
      loadPages.simps failingPages_def appendItems_def selectItems_def js_sort_def Let_def)
  have o: "errorItem (options prompterConfigured) = Some itemError"
    by (simp add: prompterConfigured_def)
  show ?thesis using g c i o by (simp add: loadItems_begin_props)
qed

text \<open>
  C4, as stated, fails: with no \<open>placeholderItem\<close> configured, a load of no items ends
  with \<open>busy\<close> false and an empty list.
\<close>

theorem loadItems_empty_without_placeholder:
  "loadItems (LoadAsyncIterable noPages) None prompterEmpty =
     Some (None, prompterEmpty\<lparr>quickPick := emptyPick\<lparr>activeItems := [None]\<rparr>, isShowingPlaceholder := True\<rparr>) \<and>
   items (quickPick (prompterEmpty\<lparr>quickPick := emptyPick\<lparr>activeItems := [None]\<rparr>, isShowingPlaceholder := True\<rparr>)) = [] \<and>
   \<not> busy (quickPick (prompterEmpty\<lparr>quickPick := emptyPick\<lparr>activeItems := [None]\<rparr>, isShowingPlaceholder := True\<rparr>)) \<and>
   placeholderItem (options prompterEmpty) = None"
  by (simp add: loadItems_def loadItems_begin_def loadItems_end_def prompterEmpty_def emptyPick_def noOptions_def
      loadPages.simps noPages_def appendItems_def selectItems_def js_sort_def Let_def)

text \<open>
  C4, amended. When the items have arrived without an error and the list is empty, the
  load ends with \<open>busy\<close> false and the list holds exactly the placeholder item if one
  is configured, and nothing otherwise.
\<close>

theorem loadItems_placeholder:
  "loadItems_body ld (loadItems_begin d p) = Some (None, p2) \<and> items (quickPick p2) = [] \<longrightarrow>
     loadItems ld d p = Some (loadItems_end p2) \<and>
     \<not> busy (quickPick (snd (loadItems_end p2))) \<and>
     items (quickPick (snd (loadItems_end p2))) = (case placeholderItem (options p) of Some ph \<Rightarrow> [ph] | None \<Rightarrow> [])"
proof
  assume h: "loadItems_body ld (loadItems_begin d p) = Some (None, p2) \<and> items (quickPick p2) = []"
  then have o: "options p2 = options p"
    using loadItems_body_preserves[of ld "loadItems_begin d p" "(None, p2)"] by (simp add: loadItems_begin_props)
  show "loadItems ld d p = Some (loadItems_end p2) \<and>
     \<not> busy (quickPick (snd (loadItems_end p2))) \<and>
     items (quickPick (snd (loadItems_end p2))) = (case placeholderItem (options p) of Some ph \<Rightarrow> [ph] | None \<Rightarrow> [])"
    using h o by (simp add: loadItems_def loadItems_end_props)
qed

lemma labels_of_set:
  "labels_of a = Inr ls \<Longrightarrow> Some x \<in> set a \<Longrightarrow> label x \<in> set ls"
proof (induction a arbitrary: ls)
  case Nil
  then show ?case by simp
next
  case (Cons y ys)
  show ?case
  proof (cases y)
    case None
    then show ?thesis using Cons.prems by simp
  next
    case (Some i)
    then obtain ls' where l: "labels_of ys = Inr ls'" "ls = label i # ls'"
      using Cons.prems(1) by (auto split: sum.splits)
    show ?thesis
    proof (cases "x = i")
      case True
      then show ?thesis using l by simp
    next
      case False
      then have "Some x \<in> set ys" using Cons.prems(2) Some by simp
      from Cons.IH[OF l(1) this] show ?thesis using l by simp
    qed
  qed
qed

lemma selectItems_active:
  "labels_of a = Inr ls \<Longrightarrow>
   selectItems a p = (None, p\<lparr>quickPick := (quickPick p)\<lparr>activeItems :=
      (if filter (\<lambda>i. label i \<in> set ls) (items (quickPick p)) = [] then [js_index (items (quickPick p)) 0]
       else map Some (filter (\<lambda>i. label i \<in> set ls) (items (quickPick p))))\<rparr>\<rparr>)"
  by (simp add: selectItems_def Let_def)

text \<open>
  What appending a page does when every active entry is an item: the new list is a
  permutation of the old items and the page, in the same order without a comparator and
  sorted for a consistent one; the items whose label is among the labels of the
  previously active items become active; if there is none, the first item of the
  non-empty list does; and an active item of the list is still active afterwards.
\<close>

lemma appendItems_selection:
  assumes ls: "labels_of (activeItems (quickPick p)) = Inr ls"
  shows "fst (appendItems page p) = None"
    and "items (quickPick p) @ page \<noteq> [] \<Longrightarrow>
           mset (items (quickPick (snd (appendItems page p)))) = mset (items (quickPick p) @ page)"
    and "items (quickPick p) @ page \<noteq> [] \<Longrightarrow> compare (options p) = None \<Longrightarrow>
           items (quickPick (snd (appendItems page p))) = items (quickPick p) @ page"
    and "items (quickPick p) @ page \<noteq> [] \<Longrightarrow> compare (options p) = Some f \<Longrightarrow> consistent f \<Longrightarrow>
           sorted_wrt (\<lambda>a b. f a b \<le> 0) (items (quickPick (snd (appendItems page p))))"
    and "filter (\<lambda>i. label i \<in> set ls) (items (quickPick (snd (appendItems page p)))) \<noteq> [] \<Longrightarrow>
           activeItems (quickPick (snd (appendItems page p))) =
             map Some (filter (\<lambda>i. label i \<in> set ls) (items (quickPick (snd (appendItems page p)))))"
    and "filter (\<lambda>i. label i \<in> set ls) (items (quickPick (snd (appendItems page p)))) = [] \<Longrightarrow>
         items (quickPick (snd (appendItems page p))) \<noteq> [] \<Longrightarrow>
           activeItems (quickPick (snd (appendItems page p))) = [Some (hd (items (quickPick (snd (appendItems page p)))))]"
    and "Some x \<in> set (activeItems (quickPick p)) \<Longrightarrow> x \<in> set (items (quickPick p)) \<Longrightarrow>
           Some x \<in> set (activeItems (quickPick (snd (appendItems page p))))"
proof -
  let ?merged = "js_sort (compare (options p)) (items (quickPick p) @ page)"
  let ?p' = "snd (appendItems page p)"
  let ?its' = "items (quickPick ?p')"
  define p1 where "p1 = (if length ?merged = 0 \<and> \<not> busy (quickPick p)
                then p\<lparr>quickPick := (quickPick p)\<lparr>items := (case placeholderItem (options p) of Some ph \<Rightarrow> [ph] | None \<Rightarrow> [])\<rparr>,
                       isShowingPlaceholder := True\<rparr>
                else p\<lparr>quickPick := (quickPick p)\<lparr>items := ?merged\<rparr>\<rparr>)"
  have ap: "appendItems page p = selectItems (activeItems (quickPick p)) p1"
    by (simp add: appendItems_def Let_def p1_def)
  have its1: "items (quickPick p1) = ?its'"
    by (simp add: ap selectItems_rest)
  note sel = selectItems_active[OF ls, of p1]
  show "fst (appendItems page p) = None" by (simp add: ap sel)
  have act: "activeItems (quickPick ?p') =
      (if filter (\<lambda>i. label i \<in> set ls) ?its' = [] then [js_index ?its' 0]
       else map Some (filter (\<lambda>i. label i \<in> set ls) ?its'))"
    unfolding its1[symmetric] by (simp add: ap sel)
  have c5: "items (quickPick p) @ page \<noteq> [] \<Longrightarrow> ?its' = ?merged"
    by (auto simp add: appendItems_items js_sort_Nil_iff)
  show "items (quickPick p) @ page \<noteq> [] \<Longrightarrow> mset ?its' = mset (items (quickPick p) @ page)"
    using c5 by (simp add: mset_js_sort)
  show "items (quickPick p) @ page \<noteq> [] \<Longrightarrow> compare (options p) = None \<Longrightarrow> ?its' = items (quickPick p) @ page"
    using c5 by (simp add: js_sort_def)
  show "items (quickPick p) @ page \<noteq> [] \<Longrightarrow> compare (options p) = Some f \<Longrightarrow> consistent f \<Longrightarrow>
           sorted_wrt (\<lambda>a b. f a b \<le> 0) ?its'"
    using c5 sorted_js_sort[of f] by simp
  show "filter (\<lambda>i. label i \<in> set ls) ?its' \<noteq> [] \<Longrightarrow>
      activeItems (quickPick ?p') = map Some (filter (\<lambda>i. label i \<in> set ls) ?its')"
    using act by simp
  show "filter (\<lambda>i. label i \<in> set ls) ?its' = [] \<Longrightarrow> ?its' \<noteq> [] \<Longrightarrow>
      activeItems (quickPick ?p') = [Some (hd ?its')]"
    using act js_index_hd by simp
  show "Some x \<in> set (activeItems (quickPick ?p'))"
    if h: "Some x \<in> set (activeItems (quickPick p))" "x \<in> set (items (quickPick p))"
  proof -
    have lx: "label x \<in> set ls" using labels_of_set[OF ls h(1)] .
    have ne: "items (quickPick p) @ page \<noteq> []" using h(2) by auto
    have "x \<in># mset ?merged" unfolding mset_js_sort using h(2) by simp
    then have "x \<in> set ?its'" using c5[OF ne] by simp
    then have m: "x \<in> set (filter (\<lambda>i. label i \<in> set ls) ?its')" using lx by simp
    have ne': "filter (\<lambda>i. label i \<in> set ls) ?its' \<noteq> []"
    proof
      assume e: "filter (\<lambda>i. label i \<in> set ls) ?its' = []"
      from m show False unfolding e by simp
    qed
    have a: "activeItems (quickPick ?p') = map Some (filter (\<lambda>i. label i \<in> set ls) ?its')"
      using act ne' by simp
    have "Some x \<in> Some ` set (filter (\<lambda>i. label i \<in> set ls) ?its')"
      using m by (rule imageI)
    then show ?thesis unfolding a set_map .
  qed
qed

text \<open>
  C4, amended, on an async iterable that ends without a page and a prompter with a
  placeholder item.
\<close>

theorem loadItems_placeholder_witness:
  "loadItems_body (LoadAsyncIterable noPages) (loadItems_begin None prompterConfigured) =
     Some (None, prompterConfigured\<lparr>quickPick := emptyPick\<lparr>busy := True, enabled := False\<rparr>\<rparr>) \<and>
   items (quickPick (prompterConfigured\<lparr>quickPick := emptyPick\<lparr>busy := True, enabled := False\<rparr>\<rparr>)) = [] \<and>
   loadItems (LoadAsyncIterable noPages) None prompterConfigured =
     Some (None, prompterConfigured\<lparr>quickPick := emptyPick\<lparr>items := [itemNone], activeItems := [Some itemNone]\<rparr>,
                                     isShowingPlaceholder := True\<rparr>) \<and>
   \<not> busy (quickPick (snd (loadItems_end (prompterConfigured\<lparr>quickPick := emptyPick\<lparr>busy := True, enabled := False\<rparr>\<rparr>)))) \<and>
   items (quickPick (snd (loadItems_end (prompterConfigured\<lparr>quickPick := emptyPick\<lparr>busy := True, enabled := False\<rparr>\<rparr>)))) = [itemNone]"
proof -
  let ?p2 = "prompterConfigured\<lparr>quickPick := emptyPick\<lparr>busy := True, enabled := False\<rparr>\<rparr>"
  let ?p3 = "prompterConfigured\<lparr>quickPick := emptyPick\<lparr>items := [itemNone], activeItems := [Some itemNone]\<rparr>,
                                     isShowingPlaceholder := True\<rparr>"
  have b: "loadItems_body (LoadAsyncIterable noPages) (loadItems_begin None prompterConfigured) = Some (None, ?p2)"
    by (simp add: loadItems_begin_def prompterConfigured_def emptyPick_def noOptions_def loadPages.simps noPages_def)
  have i: "items (quickPick ?p2) = []" by (simp add: emptyPick_def)
  have ph: "placeholderItem (options prompterConfigured) = Some itemNone"
    by (simp add: prompterConfigured_def)
  have e: "loadItems_end ?p2 = (None, ?p3)"
    by (simp add: loadItems_end_def prompterConfigured_def emptyPick_def noOptions_def appendItems_def
        selectItems_def js_sort_def Let_def)
  from loadItems_placeholder[of "LoadAsyncIterable noPages" None prompterConfigured ?p2] b i
  have c: "loadItems (LoadAsyncIterable noPages) None prompterConfigured = Some (loadItems_end ?p2)"
    "\<not> busy (quickPick (snd (loadItems_end ?p2)))"
    "items (quickPick (snd (loadItems_end ?p2))) = (case placeholderItem (options prompterConfigured) of Some ph \<Rightarrow> [ph] | None \<Rightarrow> [])"
    by blast+
  have c1: "loadItems (LoadAsyncIterable noPages) None prompterConfigured = Some (None, ?p3)"
    using c(1) e by simp
  have c3: "items (quickPick (snd (loadItems_end ?p2))) = [itemNone]"
    using c(3) ph by simp
  show ?thesis using b i c1 c(2) c3 by blast
qed

text \<open>A comparator that never answers zero keeps the items it ties in their order.\<close>

lemma js_sort_never_zero:
  "js_sort (Some (\<lambda>a b. if length (label a) < length (label b) then - 1 else 1))
     [plainItem ''aa'' JNull, plainItem ''bb'' JNull, plainItem ''c'' JNull] =
   [plainItem ''c'' JNull, plainItem ''aa'' JNull, plainItem ''bb'' JNull]"
  by (simp add: js_sort_def plainItem_def)

lemma consistent_byLabelLength: "consistent byLabelLength"
  by (simp add: consistent_def byLabelLength_def)

lemma sort_byLabelLength: "js_sort (Some byLabelLength) [itemLong, itemA, itemB] = [itemA, itemB, itemLong]"
  by (simp add: js_sort_def byLabelLength_def itemLong_def itemA_def itemB_def plainItem_def)

text \<open>
  The scenario of the two pages \<open>a\<close> and \<open>b\<close>: \<open>a\<close> is active after the first page and
  after the second.
\<close>

lemma loadItems_twoPages:
  "loadItems (LoadAsyncIterable twoPages) None prompterEmpty =
     Some (None, prompterEmpty\<lparr>quickPick := emptyPick\<lparr>items := [itemA, itemB], activeItems := [Some itemA]\<rparr>\<rparr>)"
proof -
  have lbl: "label itemA = ''a''" "label itemB = ''b''"
    by (simp_all add: itemA_def itemB_def plainItem_def)
  show ?thesis
    using lbl by (simp add: loadItems_def loadItems_begin_def loadItems_end_def prompterEmpty_def emptyPick_def noOptions_def
      loadPages.simps twoPages_def appendItems_def selectItems_def js_sort_def Let_def)
qed


subsection \<open>Filter-box input and step estimates\<close>

lemma custom_is_custom: "is_custom (customUserInputItem settings v)"
  by (simp add: is_custom_def customUserInputItem_def CUSTOM_USER_INPUT_def)

lemma update_has_custom:
  "\<not> list_ex is_custom its \<Longrightarrow> list_ex is_custom (items (update settings its v q)) = (v \<noteq> [])"
  by (simp add: update_def custom_is_custom)

lemma base_no_custom: "\<not> list_ex is_custom (fst (addFilterBoxInput settings q))"
  by (simp add: addFilterBoxInput_def Let_def list_ex_iff is_custom_def)

text \<open>
  C7, amended. After every update of the filter box, the list holds the custom-input
  item exactly when the text is not empty. When the validator returns a message for the
  text, the item is invalid, the message is its detail, and an accept of it is ignored.
  When the validator accepts the text, an accept resolves the prompt with the item, whose
  data is the custom-input marker, and the transform turns the marker into what the
  caller's parser returns for the text, if that is neither \<open>undefined\<close> nor \<open>null\<close>. The
  data of any other item passes through the transform unchanged.
\<close>

theorem filterBox_custom_input:
  "list_ex is_custom (items (snd (addFilterBoxInput settings q))) = (filterValue q \<noteq> []) \<and>
   list_ex is_custom (items (onDidChangeValue settings (fst (addFilterBoxInput settings q)) v q')) = (v \<noteq> []) \<and>
   (v \<noteq> [] \<and> validator settings v = Some msg \<longrightarrow>
      items (onDidChangeValue settings its v q') = customUserInputItem settings v # its \<and>
      invalidSelection (customUserInputItem settings v) \<and> detail (customUserInputItem settings v) = Some msg \<and>
      acceptItems (s\<lparr>picker := (picker s)\<lparr>selectedItems := [customUserInputItem settings v]\<rparr>\<rparr>) =
        s\<lparr>picker := (picker s)\<lparr>selectedItems := [customUserInputItem settings v]\<rparr>\<rparr>) \<and>
   (v \<noteq> [] \<and> validator settings v = None \<and> outcome s = Pending \<and> filterValue q' = v \<and>
    fb_transform settings v \<noteq> JUndefined \<and> fb_transform settings v \<noteq> JNull \<longrightarrow>
      outcome (acceptItems (s\<lparr>picker := (picker s)\<lparr>selectedItems := [customUserInputItem settings v]\<rparr>\<rparr>)) =
        Resolved [customUserInputItem settings v] \<and>
      choiceResult [customUserInputItem settings v] = Inr CUSTOM_USER_INPUT \<and>
      filterBoxTransform settings q' CUSTOM_USER_INPUT = fb_transform settings v) \<and>
   (\<not> strict_eq d CUSTOM_USER_INPUT \<longrightarrow> filterBoxTransform settings q' d = d)"
proof -
  have A: "list_ex is_custom (items (snd (addFilterBoxInput settings q))) = (filterValue q \<noteq> [])"
    using update_has_custom[OF base_no_custom, where v = "filterValue q" and q = q and settings = settings and ?settings1 = settings and ?q1 = q]
    by (simp add: addFilterBoxInput_def Let_def)
  have B: "list_ex is_custom (items (onDidChangeValue settings (fst (addFilterBoxInput settings q)) v q')) = (v \<noteq> [])"
    unfolding onDidChangeValue_def by (rule update_has_custom[OF base_no_custom])
  have C: "items (onDidChangeValue settings its v q') = customUserInputItem settings v # its \<and>
      invalidSelection (customUserInputItem settings v) \<and> detail (customUserInputItem settings v) = Some msg \<and>
      acceptItems (s\<lparr>picker := (picker s)\<lparr>selectedItems := [customUserInputItem settings v]\<rparr>\<rparr>) =
        s\<lparr>picker := (picker s)\<lparr>selectedItems := [customUserInputItem settings v]\<rparr>\<rparr>"
    if "v \<noteq> []" "validator settings v = Some msg"
    using that by (simp add: onDidChangeValue_def update_def acceptItems_def customUserInputItem_def Let_def)
  have D: "outcome (acceptItems (s\<lparr>picker := (picker s)\<lparr>selectedItems := [customUserInputItem settings v]\<rparr>\<rparr>)) =
        Resolved [customUserInputItem settings v] \<and>
      choiceResult [customUserInputItem settings v] = Inr CUSTOM_USER_INPUT \<and>
      filterBoxTransform settings q' CUSTOM_USER_INPUT = fb_transform settings v"
    if "v \<noteq> []" "validator settings v = None" "outcome s = Pending" "filterValue q' = v"
      "fb_transform settings v \<noteq> JUndefined" "fb_transform settings v \<noteq> JNull"
    using that by (simp add: acceptItems_def customUserInputItem_def Let_def resolve_def choiceResult_def
        filterBoxTransform_def CUSTOM_USER_INPUT_def)
  have E: "filterBoxTransform settings q' d = d" if "\<not> strict_eq d CUSTOM_USER_INPUT"
    using that by (simp add: filterBoxTransform_def)
  show ?thesis
    apply (intro conjI impI)
    subgoal by (rule A)
    subgoal by (rule B)
    subgoal using C by blast
    subgoal using C by blast
    subgoal using C by blast
    subgoal using C by blast
    subgoal using D by blast
    subgoal using D by blast
    subgoal using D by blast
    subgoal by (erule E)
    done
qed

text \<open>
  C7, as stated, fails: for a text that the validator accepts and the parser maps to
  \<open>undefined\<close>, committing the custom-input item yields the custom-input marker, not the
  value the parser produced.
\<close>

theorem filterBox_transform_undefined:
  "validator parseInt_settings ''8'' = None \<and>
   fb_transform parseInt_settings ''8'' = JUndefined \<and>
   filterBoxTransform parseInt_settings (emptyPick\<lparr>filterValue := ''8''\<rparr>) CUSTOM_USER_INPUT = CUSTOM_USER_INPUT \<and>
   CUSTOM_USER_INPUT \<noteq> fb_transform parseInt_settings ''8''"
  by (simp add: validator_def parseInt_settings_def filterBoxTransform_def emptyPick_def CUSTOM_USER_INPUT_def)

text \<open>
  C7, amended, on a parser of the text \<open>7\<close>: a rejected text, an accepted one, and an
  ordinary item.
\<close>

theorem filterBox_custom_input_witness:
  "validator parseInt_settings ''x'' = Some ''not a number'' \<and>
   items (onDidChangeValue parseInt_settings [itemA] ''x'' emptyPick) = [customUserInputItem parseInt_settings ''x'', itemA] \<and>
   detail (customUserInputItem parseInt_settings ''x'') = Some ''not a number'' \<and>
   invalidSelection (customUserInputItem parseInt_settings ''x'') \<and>
   outcome (acceptItems ((promptUser emptyPick)\<lparr>picker := (picker (promptUser emptyPick))\<lparr>selectedItems := [customUserInputItem parseInt_settings ''x'']\<rparr>\<rparr>))
     = Pending \<and>
   validator parseInt_settings ''7'' = None \<and> fb_transform parseInt_settings ''7'' = JNum 7 \<and>
   outcome (acceptItems ((promptUser emptyPick)\<lparr>picker := (picker (promptUser emptyPick))\<lparr>selectedItems := [customUserInputItem parseInt_settings ''7'']\<rparr>\<rparr>))
     = Resolved [customUserInputItem parseInt_settings ''7''] \<and>
   filterBoxTransform parseInt_settings (emptyPick\<lparr>filterValue := ''7''\<rparr>) CUSTOM_USER_INPUT = JNum 7 \<and>
   \<not> strict_eq (JStr ''a'') CUSTOM_USER_INPUT \<and>
   filterBoxTransform parseInt_settings (emptyPick\<lparr>filterValue := ''7''\<rparr>) (JStr ''a'') = JStr ''a''"
proof -
  let ?s = "promptUser emptyPick"
  let ?q7 = "emptyPick\<lparr>filterValue := ''7''\<rparr>"
  note T1 = filterBox_custom_input[of parseInt_settings emptyPick "''x''" emptyPick "''not a number''" "[itemA]" ?s "JStr ''a''"]
  note T2 = filterBox_custom_input[of parseInt_settings emptyPick "''7''" ?q7 "''not a number''" "[itemA]" ?s "JStr ''a''"]
  have v1: "''x'' \<noteq> []" "validator parseInt_settings ''x'' = Some ''not a number''"
    by (simp_all add: validator_def parseInt_settings_def)
  have v2: "''7'' \<noteq> []" "validator parseInt_settings ''7'' = None" "outcome ?s = Pending" "filterValue ?q7 = ''7''"
    "fb_transform parseInt_settings ''7'' = JNum 7"
    by (simp_all add: validator_def parseInt_settings_def promptUser_def)
  have v3: "fb_transform parseInt_settings ''7'' \<noteq> JUndefined" "fb_transform parseInt_settings ''7'' \<noteq> JNull"
    by (simp_all add: v2(5))
  have d: "\<not> strict_eq (JStr ''a'') CUSTOM_USER_INPUT" by (simp add: CUSTOM_USER_INPUT_def)
  from T1 v1 have c1: "items (onDidChangeValue parseInt_settings [itemA] ''x'' emptyPick) = [customUserInputItem parseInt_settings ''x'', itemA]"
    "detail (customUserInputItem parseInt_settings ''x'') = Some ''not a number''"
    "invalidSelection (customUserInputItem parseInt_settings ''x'')"
    "acceptItems (?s\<lparr>picker := (picker ?s)\<lparr>selectedItems := [customUserInputItem parseInt_settings ''x'']\<rparr>\<rparr>) =
        ?s\<lparr>picker := (picker ?s)\<lparr>selectedItems := [customUserInputItem parseInt_settings ''x'']\<rparr>\<rparr>"
    by blast+
  have c1': "outcome (acceptItems (?s\<lparr>picker := (picker ?s)\<lparr>selectedItems := [customUserInputItem parseInt_settings ''x'']\<rparr>\<rparr>)) = Pending"
    unfolding c1(4) by (simp add: promptUser_def)
  from T2 v2 v3 have c2: "outcome (acceptItems (?s\<lparr>picker := (picker ?s)\<lparr>selectedItems := [customUserInputItem parseInt_settings ''7'']\<rparr>\<rparr>)) =
        Resolved [customUserInputItem parseInt_settings ''7'']"
    "filterBoxTransform parseInt_settings ?q7 CUSTOM_USER_INPUT = fb_transform parseInt_settings ''7''"
    by blast+
  from T2 d have c3: "filterBoxTransform parseInt_settings ?q7 (JStr ''a'') = JStr ''a''" by blast
  show ?thesis
    using v1(2) c1(1,2,3) c1' v2(2,5) c2 d c3 by simp
qed

lemma sample_hashes:
  "hashItem itemA = ''a::''" "hashItem itemSkip = ''skipped::''" "hashItem itemFn = ''later::''"
  "hashItem itemTwin = ''a::''" "hashItem itemRejecting = ''broken::''" "hashItem itemLong = ''long label::''"
  by (simp_all add: hashItem_def itemA_def itemSkip_def itemFn_def itemTwin_def itemRejecting_def itemLong_def plainItem_def)

lemma sample_setEstimate:
  "setEstimate stepsOfLength id itemA est = (NoPromise, est(''a::'' \<mapsto> 1))"
  "setEstimate stepsOfLength id itemTwin est = (NoPromise, est(''a::'' \<mapsto> 8))"
  "setEstimate stepsOfLength id itemLong est = (NoPromise, est(''long label::'' \<mapsto> 3))"
  "setEstimate stepsOfLength id itemSkip est = (NoPromise, est)"
  "setEstimate stepsOfLength id itemFn est = (EstimatePromise itemFn, est)"
  "setEstimate stepsOfLength id itemRejecting est = (EstimatePromise itemRejecting, est)"
  by (simp_all add: setEstimate_def hashItem_def itemA_def itemSkip_def itemFn_def itemTwin_def itemLong_def
      itemRejecting_def plainItem_def stepsOfLength_def)

lemma sample_await:
  "await_first stepsOfLength id (Some NoPromise) [] st est = Inr est"
  "await_first stepsOfLength id (Some (EstimatePromise itemFn)) [] [itemFn] est = Inr (est(''later::'' \<mapsto> 1))"
  "await_first stepsOfLength id (Some (EstimatePromise itemRejecting)) [] st est = Inl DataRejected"
  by (simp_all add: await_first_def arrive_def hashItem_def itemFn_def itemRejecting_def plainItem_def stepsOfLength_def)


lemma hook_on_skipped_a:
  "setEstimatorHook (Some stepsOfLength) id [] (pickStep1of2 [itemSkip, itemA]) =
     Inr (Some \<lparr>estimates = [''a::'' \<mapsto> 1], promised = [], current = Num 1, total = Num 2\<rparr>,
          (pickStep1of2 [itemSkip, itemA])\<lparr>totalSteps := NaN\<rparr>)"
  by (simp add: setEstimatorHook_def sample_setEstimate sample_await sample_hashes started_def estimate_of_def
      setSteps_def Let_def pickStep1of2_def)





text \<open>
  When the first item is flagged \<open>skipEstimate\<close> and no other item has its hash, the
  total that is shown becomes \<open>NaN\<close>: the hook adds the missing entry of the map to the
  total, where the handler for a change of the active items falls back to 0.
\<close>

lemma setEstimatorHook_first_item_skipped:
  "setEstimatorHook (Some stepsOfLength) id [] (pickStep1of2 [itemSkip, itemA]) =
     Inr (Some \<lparr>estimates = [''a::'' \<mapsto> 1], promised = [], current = Num 1, total = Num 2\<rparr>,
          (pickStep1of2 [itemSkip, itemA])\<lparr>totalSteps := NaN\<rparr>) \<and>
   onDidChangeActive stepsOfLength id \<lparr>estimates = [''a::'' \<mapsto> 1], promised = [], current = Num 1, total = Num 2\<rparr>
       [itemSkip] [] ((pickStep1of2 [itemSkip, itemA])\<lparr>totalSteps := NaN\<rparr>) =
     Inr (\<lparr>estimates = [''a::'' \<mapsto> 1], promised = [], current = Num 1, total = Num 2\<rparr>,
          (pickStep1of2 [itemSkip, itemA])\<lparr>totalSteps := Num 2\<rparr>)"
proof -
  have h: "onDidChangeActive stepsOfLength id \<lparr>estimates = [''a::'' \<mapsto> 1], promised = [], current = Num 1, total = Num 2\<rparr>
       [itemSkip] [] ((pickStep1of2 [itemSkip, itemA])\<lparr>totalSteps := NaN\<rparr>) =
     Inr (\<lparr>estimates = [''a::'' \<mapsto> 1], promised = [], current = Num 1, total = Num 2\<rparr>,
          (pickStep1of2 [itemSkip, itemA])\<lparr>totalSteps := Num 2\<rparr>)"
    by (simp add: onDidChangeActive_def sample_setEstimate sample_await sample_hashes started_def setSteps_def
        pickStep1of2_def)
  show ?thesis using hook_on_skipped_a h by simp
qed





end
